theory Spec2Isabelle
  imports Main
begin

section \<open>JavaScript values and library functions\<close>

text \<open>
  A JSON value, as \<^verbatim>\<open>JSON.parse\<close> produces it. Numbers are carried as integers:
  the code only compares a number with a count, and a fractional number behaves there
  like any other number that is not that count.
\<close>

datatype json =
    JNull
  | JBool bool
  | JNum int
  | JStr string
  | JArr "json list"
  | JObj "(string \<times> json) list"

text \<open>
  A thrown value is represented by the text that a template literal
  \<^verbatim>\<open>`${error}`\<close> renders for it; for \<^verbatim>\<open>new Error(m)\<close> that is
  \<^verbatim>\<open>"Error: " + m\<close>.
\<close>

type_synonym exn = string

abbreviation NL :: string where
  "NL \<equiv> [CHR 0x0A]"

text \<open>\<^verbatim>\<open>Array.prototype.join\<close> on an array of strings.\<close>

fun join :: "string \<Rightarrow> string list \<Rightarrow> string" where
  "join sep [] = []"
| "join sep [x] = x"
| "join sep (x # y # ys) = x @ sep @ join sep (y # ys)"

text \<open>\<^verbatim>\<open>Number.prototype.toString\<close> on a non-negative integer.\<close>

fun toString :: "nat \<Rightarrow> string" where
  "toString n =
     (if n < 10 then [''0123456789'' ! n]
      else toString (n div 10) @ [''0123456789'' ! (n mod 10)])"

declare toString.simps [simp del]

text \<open>
  \<^verbatim>\<open>String.prototype.trim\<close>; of the white space of ECMAScript, the characters that
  fit one \<^typ>\<open>char\<close>.
\<close>

definition is_ws :: "char \<Rightarrow> bool" where
  "is_ws c = (c \<in> set [CHR 0x09, CHR 0x0A, CHR 0x0B, CHR 0x0C, CHR 0x0D, CHR 0x20, CHR 0xA0])"

definition trim :: "string \<Rightarrow> string" where
  "trim s = rev (dropWhile is_ws (rev (dropWhile is_ws s)))"

text \<open>
  \<^verbatim>\<open>String.prototype.replace(pattern, replacement)\<close> with a string pattern: only the
  first occurrence of the pattern is replaced, and in the replacement text the
  patterns \<^verbatim>\<open>$$\<close>, \<^verbatim>\<open>$&\<close>, \<^verbatim>\<open>$`\<close> and \<^verbatim>\<open>$'\<close> stand for a dollar sign, the
  matched text, the text before the match and the text after it. With a string
  pattern there are no capture groups, so \<^verbatim>\<open>$1\<close> and the like stay as they are.
\<close>

fun find_first :: "string \<Rightarrow> string \<Rightarrow> (string \<times> string) option" where
  "find_first pat [] = (if pat = [] then Some ([], []) else None)"
| "find_first pat (c # cs) =
     (if take (length pat) (c # cs) = pat then Some ([], drop (length pat) (c # cs))
      else (case find_first pat cs of
              None \<Rightarrow> None
            | Some (pre, post) \<Rightarrow> Some (c # pre, post)))"

fun get_substitution :: "string \<Rightarrow> string \<Rightarrow> string \<Rightarrow> string \<Rightarrow> string" where
  "get_substitution matched pre post [] = []"
| "get_substitution matched pre post [c] = [c]"
| "get_substitution matched pre post (c # d # r) =
     (if c = CHR ''$'' \<and> d = CHR ''$'' then CHR ''$'' # get_substitution matched pre post r
      else if c = CHR ''$'' \<and> d = CHR ''&'' then matched @ get_substitution matched pre post r
      else if c = CHR ''$'' \<and> d = CHR 0x60 then pre @ get_substitution matched pre post r
      else if c = CHR ''$'' \<and> d = CHR 0x27 then post @ get_substitution matched pre post r
      else c # get_substitution matched pre post (d # r))"

definition replace :: "string \<Rightarrow> string \<Rightarrow> string \<Rightarrow> string" where
  "replace s pat replacement =
     (case find_first pat s of
        None \<Rightarrow> s
      | Some (pre, post) \<Rightarrow> pre @ get_substitution pat pre post replacement @ post)"

section \<open>Configuration, messages and the language-model client\<close>

text \<open>
  The fields of \<^verbatim>\<open>Config\<close> that the agent and the orchestrator read. The iteration
  limit and the agent count are counts, hence natural numbers.
\<close>

record config =
  model :: string
  system_prompt :: string
  max_iterations :: nat
  parallel_agents :: nat
  task_timeout :: int
  aggregation_strategy :: string
  question_generation_prompt :: string
  synthesis_prompt :: string

record tool_call =
  tc_id :: string
  fn_name :: string
  fn_arguments :: string

text \<open>
  A message of the conversation. The content of a user message is a JSON value:
  \<^verbatim>\<open>run\<close> declares its input a string, but \<^verbatim>\<open>orchestrate\<close> hands it whatever
  element \<^verbatim>\<open>JSON.parse\<close> produced, unchecked. A tool message carries
  \<^verbatim>\<open>tool_call_id\<close>, \<^verbatim>\<open>name\<close> and \<^verbatim>\<open>content\<close>.
\<close>

datatype message =
    System string
  | User json
  | Assistant "string option" "tool_call list option"
  | Tool string string string

text \<open>
  An assistant message of a reply: \<open>None\<close> stands for a field that is null or
  absent.
\<close>

record assistant_message =
  content :: "string option"
  tool_calls :: "tool_call list option"

text \<open>
  The value that \<^verbatim>\<open>chat.completions.create\<close> resolves with: the array
  \<^verbatim>\<open>response.choices\<close>, each choice by its \<^verbatim>\<open>message\<close> (\<open>None\<close> when the choice has
  none); a response without the array is one with the empty array. \<open>message_of\<close> is
  the read \<^verbatim>\<open>response.choices[0].message\<close>; it is \<open>None\<close> where that read, or the read
  of \<^verbatim>\<open>content\<close> on its result, raises a TypeError.
\<close>

record response =
  choices :: "assistant_message option list"

definition message_of :: "response \<Rightarrow> assistant_message option" where
  "message_of r = (case choices r of [] \<Rightarrow> None | m # others \<Rightarrow> m)"

record tool_schema =
  schema_name :: string
  schema_description :: string
  schema_parameters :: json

record request =
  rq_model :: string
  rq_messages :: "message list"
  rq_tools :: "tool_schema list"

text \<open>
  A tool, as \<^verbatim>\<open>discoverTools\<close> instantiates it; \<open>execute\<close> either raises or returns
  a payload.
\<close>

record tool =
  tool_name :: string
  tool_description :: string
  tool_parameters :: json
  execute :: "json \<Rightarrow> exn + json"

text \<open>
  The \<^verbatim>\<open>new OpenRouterAgent(this.config, true)\<close> expressions of the repository: one in
  \<^verbatim>\<open>main\<close>, one in \<^verbatim>\<open>decomposeTask\<close>, one in each call \<^verbatim>\<open>runAgentParallel(agentId, _)\<close>
  and one in \<^verbatim>\<open>aggregateConsensus\<close>. Each constructs a client of its own.
\<close>

datatype site =
    In_main
  | In_decomposeTask
  | In_runAgentParallel nat
  | In_aggregateConsensus

text \<open>
  What the code takes from outside. \<open>OpenAI\<close> gives, for the client constructed at
  a site, the outcome of \<^verbatim>\<open>chat.completions.create\<close> as a function of the request:
  the response it resolves with, or the value thrown. The requests of one run are pairwise
  different, since the conversation grows with every reply, so any script of
  replies is such a function. \<open>elapsed i\<close> is the difference of the two readings of
  \<^verbatim>\<open>Date.now()\<close> in \<^verbatim>\<open>runAgentParallel(i, _)\<close>.
\<close>

record env =
  JSON_parse :: "string \<Rightarrow> exn + json"
  JSON_stringify :: "json \<Rightarrow> string"
  discoverTools :: "tool list"
  OpenAI :: "site \<Rightarrow> request \<Rightarrow> exn + response"
  elapsed :: "nat \<Rightarrow> int"

section \<open>The agent\<close>

record agent =
  agent_config :: config
  client :: "request \<Rightarrow> exn + response"
  tools :: "tool_schema list"
  toolMapping :: "string \<rightharpoonup> (json \<Rightarrow> exn + json)"

definition toOpenRouterSchema :: "tool \<Rightarrow> tool_schema" where
  "toOpenRouterSchema t =
     \<lparr>schema_name = tool_name t, schema_description = tool_description t,
      schema_parameters = tool_parameters t\<rparr>"

text \<open>The constructor. Console output (\<^verbatim>\<open>silent\<close>) is not modelled.\<close>

definition new_OpenRouterAgent :: "env \<Rightarrow> site \<Rightarrow> config \<Rightarrow> agent" where
  "new_OpenRouterAgent w at cfg =
     \<lparr>agent_config = cfg,
      client = OpenAI w at,
      tools = map toOpenRouterSchema (discoverTools w),
      toolMapping = foldl (\<lambda>m t. m(tool_name t \<mapsto> execute t)) Map.empty (discoverTools w)\<rparr>"

definition request_of :: "agent \<Rightarrow> message list \<Rightarrow> request" where
  "request_of ag messages =
     \<lparr>rq_model = model (agent_config ag), rq_messages = messages, rq_tools = tools ag\<rparr>"

definition callLLM :: "agent \<Rightarrow> message list \<Rightarrow> exn + response" where
  "callLLM ag messages =
     (case client ag (request_of ag messages) of
        Inr response \<Rightarrow> Inr response
      | Inl error \<Rightarrow> Inl (''Error: LLM call failed: '' @ error))"

definition error_payload :: "env \<Rightarrow> string \<Rightarrow> string" where
  "error_payload w msg = JSON_stringify w (JObj [(''error'', JStr msg)])"

text \<open>
  \<^verbatim>\<open>handleToolCall\<close>: the inner sum is the \<^verbatim>\<open>try\<close> block, in the order of the
  source (parse the arguments, then look the name up, then call the tool); the
  outer case is the \<^verbatim>\<open>catch\<close>.
\<close>

definition handleToolCall :: "env \<Rightarrow> agent \<Rightarrow> tool_call \<Rightarrow> message" where
  "handleToolCall w ag toolCall =
     (let toolName = fn_name toolCall in
      case (case JSON_parse w (fn_arguments toolCall) of
              Inl error \<Rightarrow> Inl error
            | Inr toolArgs \<Rightarrow>
                (case toolMapping ag toolName of
                   Some f \<Rightarrow>
                     (case f toolArgs of
                        Inl error \<Rightarrow> Inl error
                      | Inr toolResult \<Rightarrow>
                          Inr (Tool (tc_id toolCall) toolName (JSON_stringify w toolResult)))
                 | None \<Rightarrow>
                     Inr (Tool (tc_id toolCall) toolName
                            (error_payload w (''Unknown tool: '' @ toolName)))))
      of
        Inr toolResult \<Rightarrow> toolResult
      | Inl error \<Rightarrow>
          Tool (tc_id toolCall) (fn_name toolCall)
            (error_payload w (''Tool execution failed: '' @ error)))"

text \<open>
  The state of \<^verbatim>\<open>run\<close>: its three local variables, and \<open>llm_calls\<close>, the requests
  sent to the client so far (what a test double of the client records).
\<close>

record run_state =
  messages :: "message list"
  fullResponseContent :: "string list"
  iteration :: nat
  llm_calls :: "request list"

text \<open>
  The \<^verbatim>\<open>for\<close> loop over the tool calls of one reply. It returns the conversation and
  whether the \<^verbatim>\<open>return\<close> inside the loop was taken.
\<close>

fun tool_calls_loop :: "env \<Rightarrow> agent \<Rightarrow> tool_call list \<Rightarrow> message list \<Rightarrow> message list \<times> bool" where
  "tool_calls_loop w ag [] msgs = (msgs, False)"
| "tool_calls_loop w ag (toolCall # rest) msgs =
     (let msgs' = msgs @ [handleToolCall w ag toolCall] in
      if fn_name toolCall = ''mark_task_complete'' then (msgs', True)
      else tool_calls_loop w ag rest msgs')"

text \<open>\<^verbatim>\<open>if (assistantMessage.content) fullResponseContent.push(...)\<close>: null and the empty
  string are falsy.\<close>

fun pushed :: "string option \<Rightarrow> string list" where
  "pushed None = []"
| "pushed (Some text) = (if text = [] then [] else [text])"

text \<open>
  One pass through the body of the \<^verbatim>\<open>while\<close> loop: \<open>Some\<close> when the pass leaves
  \<^verbatim>\<open>run\<close> (by \<^verbatim>\<open>return\<close>, \<open>Inr\<close>, or by an exception, \<open>Inl\<close>: that of \<^verbatim>\<open>callLLM\<close>, or
  the TypeError of reading the message of a response that has none, which is
  outside any \<^verbatim>\<open>try\<close>), \<open>None\<close> when the loop goes on. An array of tool calls is
  truthy also when empty.
\<close>

definition loop_body :: "env \<Rightarrow> agent \<Rightarrow> run_state \<Rightarrow> (exn + string) option \<times> run_state" where
  "loop_body w ag s =
     (let s1 = s\<lparr>iteration := Suc (iteration s),
                 llm_calls := llm_calls s @ [request_of ag (messages s)]\<rparr> in
      case callLLM ag (messages s) of
        Inl error \<Rightarrow> (Some (Inl error), s1)
      | Inr response \<Rightarrow>
          (case message_of response of
             None \<Rightarrow> (Some (Inl ''TypeError: Cannot read properties of undefined''), s1)
           | Some assistantMessage \<Rightarrow>
               (let s2 = s1\<lparr>messages := messages s1 @
                              [Assistant (content assistantMessage) (tool_calls assistantMessage)],
                            fullResponseContent := fullResponseContent s1 @
                              pushed (content assistantMessage)\<rparr> in
                case tool_calls assistantMessage of
                  None \<Rightarrow> (None, s2)
                | Some calls \<Rightarrow>
                    (let (msgs, returned) = tool_calls_loop w ag calls (messages s2) in
                     if returned
                     then (Some (Inr (join (NL @ NL) (fullResponseContent s2))),
                           s2\<lparr>messages := msgs\<rparr>)
                     else (None, s2\<lparr>messages := msgs\<rparr>)))))"

function run_loop :: "env \<Rightarrow> agent \<Rightarrow> run_state \<Rightarrow> (exn + string) \<times> run_state" where
  "run_loop w ag s =
     (if iteration s < max_iterations (agent_config ag) then
        (case loop_body w ag s of
           (Some out, s') \<Rightarrow> (out, s')
         | (None, s') \<Rightarrow> run_loop w ag s')
      else
        (Inr (if length (fullResponseContent s) > 0
              then join (NL @ NL) (fullResponseContent s)
              else ''Maximum iterations reached. The agent may be stuck in a loop.''), s))"
  by pat_completeness auto
termination
  by (relation "measure (\<lambda>(w, ag, s). max_iterations (agent_config ag) - iteration s)")
     (auto simp: loop_body_def Let_def split: sum.splits option.splits prod.splits if_splits)

declare run_loop.simps [simp del]

definition run :: "env \<Rightarrow> agent \<Rightarrow> json \<Rightarrow> (exn + string) \<times> run_state" where
  "run w ag userInput =
     run_loop w ag
       \<lparr>messages = [System (system_prompt (agent_config ag)), User userInput],
        fullResponseContent = [], iteration = 0, llm_calls = []\<rparr>"

section \<open>The orchestrator\<close>

record agent_result =
  agent_id :: nat
  status :: string
  response :: string
  execution_time :: int

text \<open>The two maps that a \<^verbatim>\<open>TaskOrchestrator\<close> mutates.\<close>

record orchestrator =
  agentProgress :: "nat \<rightharpoonup> string"
  agentResults :: "nat \<rightharpoonup> string"

text \<open>
  The question agent of \<^verbatim>\<open>decomposeTask\<close>, after the completion tool has been
  filtered out of its tool list and deleted from its tool mapping.
\<close>

definition questionAgent :: "env \<Rightarrow> config \<Rightarrow> agent" where
  "questionAgent w cfg =
     (let a = new_OpenRouterAgent w In_decomposeTask cfg in
      a\<lparr>tools := filter (\<lambda>tool. schema_name tool \<noteq> ''mark_task_complete'') (tools a),
        toolMapping := (toolMapping a)(''mark_task_complete'' := None)\<rparr>)"

definition generationPrompt :: "config \<Rightarrow> string \<Rightarrow> nat \<Rightarrow> string" where
  "generationPrompt cfg userInput numAgents =
     replace (replace (question_generation_prompt cfg) ''{user_input}'' userInput)
       ''{num_agents}'' (toString numAgents)"

text \<open>
  The property read \<^verbatim>\<open>questions.length\<close> on a parsed value: it raises on null
  (\<open>None\<close>), and is undefined (\<open>Some None\<close>) on a number, a boolean and an object
  without that key. The length of a string is counted in \<^typ>\<open>char\<close>s.
\<close>

fun length_property :: "json \<Rightarrow> json option option" where
  "length_property JNull = None"
| "length_property (JArr xs) = Some (Some (JNum (int (length xs))))"
| "length_property (JStr s) = Some (Some (JNum (int (length s))))"
| "length_property (JObj kvs) = Some (map_of kvs ''length'')"
| "length_property (JNum n) = Some None"
| "length_property (JBool b) = Some None"

definition fallback_questions :: "string \<Rightarrow> string list" where
  "fallback_questions userInput =
     [''Research comprehensive information about: '' @ userInput,
      ''Analyze and provide insights about: '' @ userInput,
      ''Find alternative perspectives on: '' @ userInput,
      ''Verify and cross-check facts about: '' @ userInput]"

text \<open>
  The \<^verbatim>\<open>try\<close> block of \<^verbatim>\<open>decomposeTask\<close>. Its \<^verbatim>\<open>catch\<close> binds nothing, so an exception
  is \<open>None\<close>, whatever was thrown. The parsed value is returned as it is when its
  \<^verbatim>\<open>length\<close> is strictly equal to the agent count.
\<close>

definition parsed_questions :: "env \<Rightarrow> config \<Rightarrow> string \<Rightarrow> nat \<Rightarrow> json option" where
  "parsed_questions w cfg userInput numAgents =
     (case fst (run w (questionAgent w cfg) (JStr (generationPrompt cfg userInput numAgents))) of
        Inl error \<Rightarrow> None
      | Inr text \<Rightarrow>
          (case JSON_parse w (trim text) of
             Inl error \<Rightarrow> None
           | Inr questions \<Rightarrow>
               (case length_property questions of
                  None \<Rightarrow> None
                | Some len \<Rightarrow>
                    if len \<noteq> Some (JNum (int numAgents)) then None else Some questions)))"

definition decomposeTask :: "env \<Rightarrow> config \<Rightarrow> string \<Rightarrow> nat \<Rightarrow> json" where
  "decomposeTask w cfg userInput numAgents =
     (case parsed_questions w cfg userInput numAgents of
        Some questions \<Rightarrow> questions
      | None \<Rightarrow> JArr (map JStr (take numAgents (fallback_questions userInput))))"

definition updateAgentProgress ::
    "orchestrator \<Rightarrow> nat \<Rightarrow> string \<Rightarrow> string option \<Rightarrow> orchestrator" where
  "updateAgentProgress orch agentId st result =
     (let o1 = orch\<lparr>agentProgress := (agentProgress orch)(agentId \<mapsto> st)\<rparr> in
      case result of
        None \<Rightarrow> o1
      | Some r \<Rightarrow> o1\<lparr>agentResults := (agentResults o1)(agentId \<mapsto> r)\<rparr>)"

text \<open>
  \<^verbatim>\<open>runAgentParallel\<close>. The sum in the result is the settlement of the promise:
  \<open>Inr\<close> fulfilled, \<open>Inl\<close> rejected. The inner case is the \<^verbatim>\<open>try\<close> block, the
  outer one the \<^verbatim>\<open>catch\<close>.
\<close>

definition runAgentParallel ::
    "env \<Rightarrow> config \<Rightarrow> orchestrator \<Rightarrow> nat \<Rightarrow> json \<Rightarrow> (exn + agent_result) \<times> orchestrator" where
  "runAgentParallel w cfg orch agentId subtask =
     (let o1 = updateAgentProgress orch agentId ''PROCESSING...'' None;
          agent = new_OpenRouterAgent w (In_runAgentParallel agentId) cfg in
      case (case fst (run w agent subtask) of
              Inl error \<Rightarrow> (Inl error, o1)
            | Inr text \<Rightarrow>
                (Inr \<lparr>agent_id = agentId, status = ''success'', response = text,
                      execution_time = elapsed w agentId\<rparr>,
                 updateAgentProgress o1 agentId ''COMPLETED'' (Some text)))
      of
        (Inr result, o2) \<Rightarrow> (Inr result, o2)
      | (Inl error, o2) \<Rightarrow>
          (Inr \<lparr>agent_id = agentId, status = ''error'', response = ''Error: '' @ error,
                execution_time = 0\<rparr>, o2))"

text \<open>
  \<^verbatim>\<open>subtasks.map((subtask, i) => this.runAgentParallel(i, subtask))\<close> followed by
  \<^verbatim>\<open>Promise.allSettled\<close>: one settlement per sub-task, in the order of the
  sub-tasks. The agents run interleaved; each has a client of its own and writes
  only its own key of the two maps, so the settlements and the final maps are
  those of running them one after the other.
\<close>

fun dispatch ::
    "env \<Rightarrow> config \<Rightarrow> orchestrator \<Rightarrow> nat \<Rightarrow> json list \<Rightarrow>
     (exn + agent_result) list \<times> orchestrator" where
  "dispatch w cfg orch i [] = ([], orch)"
| "dispatch w cfg orch i (subtask # rest) =
     (let (settled, o1) = runAgentParallel w cfg orch i subtask;
          (others, o2) = dispatch w cfg o1 (Suc i) rest
      in (settled # others, o2))"

definition settle :: "config \<Rightarrow> nat \<Rightarrow> exn + agent_result \<Rightarrow> agent_result" where
  "settle cfg i result =
     (case result of
        Inr val \<Rightarrow> val
      | Inl reason \<Rightarrow>
          \<lparr>agent_id = i, status = ''timeout'',
           response = ''Agent '' @ toString (i + 1) @ '' timed out or failed: '' @ reason,
           execution_time = task_timeout cfg\<rparr>)"

definition agentResponsesText :: "string list \<Rightarrow> string" where
  "agentResponsesText responses =
     concat (map (\<lambda>i. ''=== AGENT '' @ toString (i + 1) @ '' RESPONSE ==='' @ NL @
                       responses ! i @ NL @ NL)
               [0..<length responses])"

definition synthesisPrompt :: "config \<Rightarrow> string list \<Rightarrow> string" where
  "synthesisPrompt cfg responses =
     replace (replace (synthesis_prompt cfg) ''{num_responses}'' (toString (length responses)))
       ''{agent_responses}'' (agentResponsesText responses)"

definition synthesisAgent :: "env \<Rightarrow> config \<Rightarrow> agent" where
  "synthesisAgent w cfg =
     (new_OpenRouterAgent w In_aggregateConsensus cfg)\<lparr>tools := [], toolMapping := Map.empty\<rparr>"

definition combined :: "string list \<Rightarrow> string list" where
  "combined responses =
     concat (map (\<lambda>i. [''=== Agent '' @ toString (i + 1) @ '' Response ==='',
                        responses ! i, []])
               [0..<length responses])"

text \<open>
  \<^verbatim>\<open>aggregateConsensus\<close> and \<^verbatim>\<open>aggregateResults\<close> return, with the answer, the requests
  that the synthesis agent sent to its client.
\<close>

definition aggregateConsensus :: "env \<Rightarrow> config \<Rightarrow> string list \<Rightarrow> string \<times> request list" where
  "aggregateConsensus w cfg responses =
     (if length responses = 1 then (responses ! 0, [])
      else
        (case run w (synthesisAgent w cfg) (JStr (synthesisPrompt cfg responses)) of
           (Inr finalAnswer, s) \<Rightarrow> (finalAnswer, llm_calls s)
         | (Inl error, s) \<Rightarrow> (join NL (combined responses), llm_calls s)))"

definition aggregateResults ::
    "env \<Rightarrow> config \<Rightarrow> agent_result list \<Rightarrow> string \<times> request list" where
  "aggregateResults w cfg agent_results =
     (let successfulResults = filter (\<lambda>r. status r = ''success'') agent_results in
      if length successfulResults = 0
      then (''All agents failed to provide results. Please try again.'', [])
      else
        (let responses = map response successfulResults in
         if aggregation_strategy cfg = ''consensus''
         then aggregateConsensus w cfg responses
         else aggregateConsensus w cfg responses))"

text \<open>
  What one call of \<^verbatim>\<open>orchestrate\<close> does: the value of \<^verbatim>\<open>subtasks\<close>, the sorted
  \<^verbatim>\<open>results\<close>, the requests of the synthesis agent, the two maps at the end, and the
  outcome of the call: the string returned, or the exception.
\<close>

record orchestration =
  subtasks :: json
  results :: "agent_result list"
  synthesis_calls :: "request list"
  final_maps :: orchestrator
  outcome :: "exn + string"

text \<open>
  \<^verbatim>\<open>orchestrate\<close>. Only an array has a \<^verbatim>\<open>map\<close> method: on any other value of
  \<^verbatim>\<open>subtasks\<close> the call \<^verbatim>\<open>subtasks.map(...)\<close> raises a TypeError, which nothing
  catches. \<^verbatim>\<open>Array.prototype.sort\<close> is stable, as \<^const>\<open>sort_key\<close> is.
\<close>

definition orchestrate :: "env \<Rightarrow> config \<Rightarrow> orchestrator \<Rightarrow> string \<Rightarrow> orchestration" where
  "orchestrate w cfg orch userInput =
     (let o0 = orch\<lparr>agentProgress := Map.empty, agentResults := Map.empty\<rparr>;
          tasks = decomposeTask w cfg userInput (parallel_agents cfg);
          o1 = foldl (\<lambda>st i. st\<lparr>agentProgress := (agentProgress st)(i \<mapsto> ''QUEUED'')\<rparr>)
                 o0 [0..<parallel_agents cfg]
      in case tasks of
           JArr ts \<Rightarrow>
             (let (settled, o2) = dispatch w cfg o1 0 ts;
                  rs = sort_key agent_id
                         (map (\<lambda>(i, result). settle cfg i result) (enumerate 0 settled));
                  (finalResult, calls) = aggregateResults w cfg rs
              in \<lparr>subtasks = tasks, results = rs, synthesis_calls = calls,
                   final_maps = o2, outcome = Inr finalResult\<rparr>)
         | _ \<Rightarrow>
             \<lparr>subtasks = tasks, results = [], synthesis_calls = [], final_maps = o1,
              outcome = Inl ''TypeError: subtasks.map is not a function''\<rparr>)"

section \<open>Sample inputs\<close>

text \<open>
  \<^verbatim>\<open>JSON.stringify\<close> without indentation on a JSON value, for the sample environment:
  strings are quoted with the escapes of ECMAScript.
\<close>

definition quote_char :: "char \<Rightarrow> string" where
  "quote_char c =
     (if c = CHR 0x22 then [CHR 0x5C, CHR 0x22]
      else if c = CHR 0x5C then [CHR 0x5C, CHR 0x5C]
      else if c = CHR 0x08 then [CHR 0x5C, CHR ''b'']
      else if c = CHR 0x0C then [CHR 0x5C, CHR ''f'']
      else if c = CHR 0x0A then [CHR 0x5C, CHR ''n'']
      else if c = CHR 0x0D then [CHR 0x5C, CHR ''r'']
      else if c = CHR 0x09 then [CHR 0x5C, CHR ''t'']
      else if (of_char c :: nat) < 32
      then [CHR 0x5C, CHR ''u'', CHR ''0'', CHR ''0'',
            ''0123456789abcdef'' ! (of_char c div 16), ''0123456789abcdef'' ! (of_char c mod 16)]
      else [c])"

definition quote :: "string \<Rightarrow> string" where
  "quote s = CHR 0x22 # concat (map quote_char s) @ [CHR 0x22]"

fun stringify :: "json \<Rightarrow> string" where
  "stringify JNull = ''null''"
| "stringify (JBool b) = (if b then ''true'' else ''false'')"
| "stringify (JNum n) = (if n < 0 then CHR ''-'' # toString (nat (- n)) else toString (nat n))"
| "stringify (JStr s) = quote s"
| "stringify (JArr xs) = ''['' @ join '','' (map stringify xs) @ '']''"
| "stringify (JObj kvs) =
     ''{'' @ join '','' (map (\<lambda>(k, v). quote k @ '':'' @ stringify v) kvs) @ ''}''"

text \<open>
  \<^verbatim>\<open>JSON.parse\<close> on the three strings that it is applied to in the scenarios below:
  the empty object, the string literal \<^verbatim>\<open>"abc"\<close>, and the empty string, on which it
  raises a SyntaxError.
\<close>

definition sample_parse :: "string \<Rightarrow> exn + json" where
  "sample_parse s =
     (if s = ''{}'' then Inr (JObj [])
      else if s = [CHR 0x22, CHR ''a'', CHR ''b'', CHR ''c'', CHR 0x22] then Inr (JStr ''abc'')
      else Inl ''SyntaxError: Unexpected end of JSON input'')"

definition sample_tools :: "tool list" where
  "sample_tools =
     [\<lparr>tool_name = ''search_web'', tool_description = ''Search the web'',
       tool_parameters = JObj [], execute = (\<lambda>args. Inr (JObj [(''results'', JArr [])]))\<rparr>,
      \<lparr>tool_name = ''mark_task_complete'', tool_description = ''Signal task completion'',
       tool_parameters = JObj [],
       execute = (\<lambda>args. Inr (JObj [(''status'', JStr ''completed'')]))\<rparr>,
      \<lparr>tool_name = ''failing_tool'', tool_description = ''A tool that raises'',
       tool_parameters = JObj [], execute = (\<lambda>args. Inl ''Error: Tool error'')\<rparr>]"

text \<open>
  The sample environment, for a client given by the responses it resolves with,
  and for one given by the messages of well-formed responses (one choice each).
\<close>

definition sample_env_of :: "(site \<Rightarrow> request \<Rightarrow> exn + response) \<Rightarrow> env" where
  "sample_env_of c =
     \<lparr>JSON_parse = sample_parse, JSON_stringify = stringify, discoverTools = sample_tools,
      OpenAI = c, elapsed = (\<lambda>i. 100)\<rparr>"

definition sample_env :: "(site \<Rightarrow> request \<Rightarrow> exn + assistant_message) \<Rightarrow> env" where
  "sample_env c =
     sample_env_of (\<lambda>at rq. case c at rq of
                               Inl error \<Rightarrow> Inl error
                             | Inr m \<Rightarrow> Inr \<lparr>choices = [Some m]\<rparr>)"

text \<open>The configuration of the repository's orchestrator tests, with \<open>n\<close> agents.\<close>

definition sample_config :: "nat \<Rightarrow> config" where
  "sample_config n =
     \<lparr>model = ''test-model'', system_prompt = ''Test prompt'', max_iterations = 5,
      parallel_agents = n, task_timeout = 300, aggregation_strategy = ''consensus'',
      question_generation_prompt = ''Generate {num_agents} questions for: {user_input}'',
      synthesis_prompt = ''Synthesize {num_responses} responses: {agent_responses}''\<rparr>"

definition new_TaskOrchestrator :: orchestrator where
  "new_TaskOrchestrator = \<lparr>agentProgress = Map.empty, agentResults = Map.empty\<rparr>"

definition call :: "string \<Rightarrow> string \<Rightarrow> string \<Rightarrow> tool_call" where
  "call i n a = \<lparr>tc_id = i, fn_name = n, fn_arguments = a\<rparr>"

text \<open>A reply with the given text that also calls the completion tool.\<close>

definition done_with :: "string \<Rightarrow> assistant_message" where
  "done_with text =
     \<lparr>content = Some text, tool_calls = Some [call ''call_1'' ''mark_task_complete'' ''{}'']\<rparr>"

text \<open>Clients: what the model answers at each site.\<close>

definition completing :: "site \<Rightarrow> request \<Rightarrow> exn + assistant_message" where
  "completing at rq =
     Inr \<lparr>content = Some ''Task completed'',
          tool_calls = Some [call ''call_1'' ''search_web'' ''{}'',
                             call ''call_2'' ''mark_task_complete'' ''{}'',
                             call ''call_3'' ''search_web'' ''{}'']\<rparr>"

definition always_response :: "site \<Rightarrow> request \<Rightarrow> exn + assistant_message" where
  "always_response at rq = Inr \<lparr>content = Some ''Response'', tool_calls = None\<rparr>"

definition failing :: "site \<Rightarrow> request \<Rightarrow> exn + assistant_message" where
  "failing at rq = Inl ''Error: Connection error.''"

definition first_succeeds :: "site \<Rightarrow> request \<Rightarrow> exn + assistant_message" where
  "first_succeeds at rq =
     (if at = In_runAgentParallel 0 then Inr (done_with ''Success response'')
      else Inl ''Error: Connection error.'')"

text \<open>
  The sub-agents answer with the given texts; the decomposition call fails, and the
  synthesis call gives the last argument.
\<close>

definition answering ::
    "string list \<Rightarrow> exn + assistant_message \<Rightarrow> site \<Rightarrow> request \<Rightarrow> exn + assistant_message" where
  "answering texts synthesis at rq =
     (case at of
        In_runAgentParallel i \<Rightarrow>
          (if i < length texts then Inr (done_with (texts ! i))
           else Inl ''Error: Connection error.'')
      | In_aggregateConsensus \<Rightarrow> synthesis
      | _ \<Rightarrow> Inl ''Error: Connection error.'')"

text \<open>
  A scripted model, as a chain of \<^verbatim>\<open>mockResolvedValueOnce\<close>: the calls of a run so far
  are counted by the assistant messages of the conversation, and call number \<open>n\<close>
  gets message \<open>n\<close> of the script; past its end the call raises.
\<close>

fun is_assistant :: "message \<Rightarrow> bool" where
  "is_assistant (Assistant c t) = True"
| "is_assistant (System c) = False"
| "is_assistant (User c) = False"
| "is_assistant (Tool i n c) = False"

definition scripted :: "assistant_message list \<Rightarrow> site \<Rightarrow> request \<Rightarrow> exn + assistant_message" where
  "scripted script at rq =
     (let n = length (filter is_assistant (rq_messages rq)) in
      if n < length script then Inr (script ! n) else Inl ''Error: Connection error.'')"


text \<open>
  The question agent is answered with the JSON string literal \<^verbatim>\<open>"abc"\<close> and a call
  of the completion tool; every other call fails.
\<close>

definition string_decomposition :: "site \<Rightarrow> request \<Rightarrow> exn + assistant_message" where
  "string_decomposition at rq =
     (if at = In_decomposeTask
      then Inr (done_with [CHR 0x22, CHR ''a'', CHR ''b'', CHR ''c'', CHR 0x22])
      else Inl ''Error: Connection error.'')"

section \<open>The agent loop: lemmas\<close>

text \<open>
  The text of the reply to a request: the content of the message in the response
  of the agent's client, and the empty string where the call raises or the
  response has no message or the message no content.
\<close>

abbreviation reply_text :: "agent \<Rightarrow> request \<Rightarrow> string" where
  "reply_text ag rq \<equiv>
     (case client ag rq of
        Inl e \<Rightarrow> []
      | Inr r \<Rightarrow>
          (case message_of r of
             None \<Rightarrow> []
           | Some m \<Rightarrow> (case content m of None \<Rightarrow> [] | Some t \<Rightarrow> t)))"

lemma tool_calls_loop_eq:
  "tool_calls_loop w ag calls msgs =
     (msgs @ map (handleToolCall w ag)
        (takeWhile (\<lambda>c. fn_name c \<noteq> ''mark_task_complete'') calls @
         take 1 (dropWhile (\<lambda>c. fn_name c \<noteq> ''mark_task_complete'') calls)),
      \<exists>c\<in>set calls. fn_name c = ''mark_task_complete'')"
  by (induction calls arbitrary: msgs) (simp_all add: Let_def)

lemma tool_calls_loop_all:
  "\<forall>c\<in>set calls. fn_name c \<noteq> ''mark_task_complete'' \<Longrightarrow>
   tool_calls_loop w ag calls msgs = (msgs @ map (handleToolCall w ag) calls, False)"
  by (induction calls arbitrary: msgs) (simp_all add: Let_def)

lemma pushed_filter:
  "pushed c = filter (\<lambda>t. t \<noteq> []) [case c of None \<Rightarrow> [] | Some t \<Rightarrow> t]"
  by (cases c) simp_all

lemma loop_body_returns:
  assumes "callLLM ag (messages s) = Inr r"
      and "message_of r = Some am"
      and "tool_calls am = Some calls"
      and "\<exists>c\<in>set calls. fn_name c = ''mark_task_complete''"
  shows "loop_body w ag s =
     (Some (Inr (join (NL @ NL) (fullResponseContent s @ pushed (content am)))),
      s\<lparr>iteration := Suc (iteration s),
        llm_calls := llm_calls s @ [request_of ag (messages s)],
        messages := messages s @ Assistant (content am) (tool_calls am) #
          map (handleToolCall w ag)
            (takeWhile (\<lambda>c. fn_name c \<noteq> ''mark_task_complete'') calls @
             take 1 (dropWhile (\<lambda>c. fn_name c \<noteq> ''mark_task_complete'') calls)),
        fullResponseContent := fullResponseContent s @ pushed (content am)\<rparr>)"
  using assms by (simp add: loop_body_def Let_def tool_calls_loop_eq)

lemma loop_body_continues:
  assumes "callLLM ag (messages s) = Inr r"
      and "message_of r = Some am"
      and "\<forall>calls. tool_calls am = Some calls \<longrightarrow>
             (\<forall>c\<in>set calls. fn_name c \<noteq> ''mark_task_complete'')"
  shows "loop_body w ag s =
     (None,
      s\<lparr>iteration := Suc (iteration s),
        llm_calls := llm_calls s @ [request_of ag (messages s)],
        messages := messages s @ Assistant (content am) (tool_calls am) #
          (case tool_calls am of None \<Rightarrow> [] | Some calls \<Rightarrow> map (handleToolCall w ag) calls),
        fullResponseContent := fullResponseContent s @ pushed (content am)\<rparr>)"
  using assms
  by (cases "tool_calls am") (auto simp add: loop_body_def Let_def tool_calls_loop_all)

lemma loop_body_raises:
  assumes "callLLM ag (messages s) = Inl e"
  shows "loop_body w ag s =
     (Some (Inl e),
      s\<lparr>iteration := Suc (iteration s),
        llm_calls := llm_calls s @ [request_of ag (messages s)]\<rparr>)"
  using assms by (simp add: loop_body_def Let_def)

lemma loop_body_no_message:
  assumes "callLLM ag (messages s) = Inr r"
      and "message_of r = None"
  shows "loop_body w ag s =
     (Some (Inl ''TypeError: Cannot read properties of undefined''),
      s\<lparr>iteration := Suc (iteration s),
        llm_calls := llm_calls s @ [request_of ag (messages s)]\<rparr>)"
  using assms by (simp add: loop_body_def Let_def)

lemma run_loop_completion:
  assumes "iteration s < max_iterations (agent_config ag)"
      and "callLLM ag (messages s) = Inr r"
      and "message_of r = Some am"
      and "tool_calls am = Some calls"
      and "\<exists>c\<in>set calls. fn_name c = ''mark_task_complete''"
  shows "run_loop w ag s =
     (Inr (join (NL @ NL) (fullResponseContent s @ pushed (content am))),
      s\<lparr>iteration := Suc (iteration s),
        llm_calls := llm_calls s @ [request_of ag (messages s)],
        messages := messages s @ Assistant (content am) (tool_calls am) #
          map (handleToolCall w ag)
            (takeWhile (\<lambda>c. fn_name c \<noteq> ''mark_task_complete'') calls @
             take 1 (dropWhile (\<lambda>c. fn_name c \<noteq> ''mark_task_complete'') calls)),
        fullResponseContent := fullResponseContent s @ pushed (content am)\<rparr>)"
  using assms(1) loop_body_returns [OF assms(2-5), of w]
  by (subst run_loop.simps) simp


lemma callLLM_Inr: "callLLM ag msgs = Inr r \<longleftrightarrow> client ag (request_of ag msgs) = Inr r"
  by (simp add: callLLM_def split: sum.splits)

lemma callLLM_Inl:
  "client ag (request_of ag msgs) = Inl e \<Longrightarrow>
   callLLM ag msgs = Inl (''Error: LLM call failed: '' @ e)"
  by (simp add: callLLM_def)

lemma loop_body_cases:
  obtains
    (raises) e where "client ag (request_of ag (messages s)) = Inl e"
  | (no_message) r where "callLLM ag (messages s) = Inr r" "message_of r = None"
  | (returns) r am calls where "callLLM ag (messages s) = Inr r" "message_of r = Some am"
      "tool_calls am = Some calls" "\<exists>c\<in>set calls. fn_name c = ''mark_task_complete''"
  | (continues) r am where "callLLM ag (messages s) = Inr r" "message_of r = Some am"
      "\<forall>calls. tool_calls am = Some calls \<longrightarrow>
         (\<forall>c\<in>set calls. fn_name c \<noteq> ''mark_task_complete'')"
proof (cases "client ag (request_of ag (messages s))")
  case (Inl e)
  then show ?thesis by (rule raises)
next
  case (Inr r)
  then have c: "callLLM ag (messages s) = Inr r" by (simp add: callLLM_Inr)
  show ?thesis
  proof (cases "message_of r")
    case None
    with c show ?thesis by (rule no_message)
  next
    case (Some am)
    show ?thesis
    proof (cases "\<exists>calls. tool_calls am = Some calls \<and>
        (\<exists>c\<in>set calls. fn_name c = ''mark_task_complete'')")
      case True
      then show ?thesis using c Some returns by blast
    next
      case False
      then show ?thesis using c Some continues by blast
    qed
  qed
qed

lemma loop_body_llm_calls:
  "llm_calls (snd (loop_body w ag s)) = llm_calls s @ [request_of ag (messages s)]"
proof (cases rule: loop_body_cases [of ag s])
  case (raises e)
  then show ?thesis by (simp add: loop_body_raises callLLM_Inl)
next
  case (no_message r)
  then show ?thesis by (simp add: loop_body_no_message)
next
  case (returns r am calls)
  then show ?thesis by (simp add: loop_body_returns)
next
  case (continues r am)
  then show ?thesis by (simp add: loop_body_continues)
qed

lemma run_loop_llm_calls_extend:
  "\<exists>ys. llm_calls (snd (run_loop w ag s)) = llm_calls s @ ys"
proof (induction w ag s rule: run_loop.induct)
  case (1 w ag s)
  show ?case
  proof (cases "iteration s < max_iterations (agent_config ag)")
    case False
    then show ?thesis by (subst run_loop.simps) simp
  next
    case True
    obtain x y where xy: "loop_body w ag s = (x, y)" by (cases "loop_body w ag s")
    have calls_y: "llm_calls y = llm_calls s @ [request_of ag (messages s)]"
      using loop_body_llm_calls [of w ag s] xy by simp
    show ?thesis
    proof (cases x)
      case None
      from "1.IH" [OF True xy [symmetric] None]
      obtain ys where "llm_calls (snd (run_loop w ag y)) = llm_calls y @ ys" by blast
      moreover have "run_loop w ag s = run_loop w ag y"
        using True xy None by (subst run_loop.simps) simp
      ultimately show ?thesis using calls_y by simp
    next
      case (Some out)
      have "run_loop w ag s = (out, y)"
        using True xy Some by (subst run_loop.simps) simp
      then show ?thesis using calls_y by simp
    qed
  qed
qed

text \<open>
  The three ways a run ends, over the requests \<open>new\<close> sent from a state on: with
  the budget used up, with an exception, and with a completion call.
\<close>

lemma run_loop_exhausts:
  assumes "\<forall>rq\<in>set (drop (length (llm_calls s)) (llm_calls (snd (run_loop w ag s)))).
             \<exists>r am. client ag rq = Inr r \<and> message_of r = Some am \<and>
               (\<forall>calls. tool_calls am = Some calls \<longrightarrow>
                  (\<forall>c\<in>set calls. fn_name c \<noteq> ''mark_task_complete''))"
  shows "fst (run_loop w ag s) =
           Inr (let texts = fullResponseContent s @
                      filter (\<lambda>t. t \<noteq> [])
                        (map (reply_text ag)
                           (drop (length (llm_calls s)) (llm_calls (snd (run_loop w ag s)))))
                in if length texts > 0 then join (NL @ NL) texts
                   else ''Maximum iterations reached. The agent may be stuck in a loop.'') \<and>
         length (llm_calls (snd (run_loop w ag s))) =
           length (llm_calls s) + (max_iterations (agent_config ag) - iteration s)"
  using assms
proof (induction w ag s rule: run_loop.induct)
  case (1 w ag s)
  show ?case
  proof (cases "iteration s < max_iterations (agent_config ag)")
    case False
    then have "run_loop w ag s =
        (Inr (if length (fullResponseContent s) > 0
              then join (NL @ NL) (fullResponseContent s)
              else ''Maximum iterations reached. The agent may be stuck in a loop.''), s)"
      by (subst run_loop.simps) simp
    then show ?thesis using False by (simp add: Let_def)
  next
    case True
    let ?rq = "request_of ag (messages s)"
    let ?n = "length (llm_calls s)"
    obtain x y where xy: "loop_body w ag s = (x, y)" by (cases "loop_body w ag s")
    have calls_y: "llm_calls y = llm_calls s @ [?rq]"
      using loop_body_llm_calls [of w ag s] xy by simp
    have "\<exists>zs. llm_calls (snd (run_loop w ag s)) = llm_calls y @ zs"
    proof (cases x)
      case None
      have "run_loop w ag s = run_loop w ag y"
        using True xy None by (subst run_loop.simps) simp
      then show ?thesis using run_loop_llm_calls_extend [of w ag y] by simp
    next
      case (Some out)
      have "run_loop w ag s = (out, y)"
        using True xy Some by (subst run_loop.simps) simp
      then show ?thesis by simp
    qed
    then obtain zs where final: "llm_calls (snd (run_loop w ag s)) = llm_calls s @ ?rq # zs"
      using calls_y by auto
    then have dropn: "drop ?n (llm_calls (snd (run_loop w ag s))) = ?rq # zs" by simp
    with "1.prems" obtain r am where r: "client ag ?rq = Inr r" and am: "message_of r = Some am"
      and nc: "\<forall>calls. tool_calls am = Some calls \<longrightarrow>
                 (\<forall>c\<in>set calls. fn_name c \<noteq> ''mark_task_complete'')"
      by auto
    have call: "callLLM ag (messages s) = Inr r" using r by (simp add: callLLM_Inr)
    note body = loop_body_continues [OF call am nc, of w]
    have x: "x = None" and frc_y: "fullResponseContent y = fullResponseContent s @ pushed (content am)"
      and it_y: "iteration y = Suc (iteration s)"
      using body xy by auto
    have same: "run_loop w ag s = run_loop w ag y"
      using True xy x by (subst run_loop.simps) simp
    have dropy: "drop (length (llm_calls y)) (llm_calls (snd (run_loop w ag y))) = zs"
      using final same calls_y by simp
    have prem_y: "\<forall>rq\<in>set (drop (length (llm_calls y)) (llm_calls (snd (run_loop w ag y)))).
             \<exists>r am. client ag rq = Inr r \<and> message_of r = Some am \<and>
               (\<forall>calls. tool_calls am = Some calls \<longrightarrow>
                  (\<forall>c\<in>set calls. fn_name c \<noteq> ''mark_task_complete''))"
      using "1.prems" dropn dropy by simp
    note IH = "1.IH" [OF True xy [symmetric] x prem_y]
    have texts: "fullResponseContent y @
          filter (\<lambda>t. t \<noteq> [])
            (map (reply_text ag)
               (drop (length (llm_calls y)) (llm_calls (snd (run_loop w ag y))))) =
        fullResponseContent s @
          filter (\<lambda>t. t \<noteq> [])
            (map (reply_text ag) (drop ?n (llm_calls (snd (run_loop w ag s)))))"
      unfolding dropy dropn frc_y using r am by (simp add: pushed_filter)
    have "fst (run_loop w ag s) = fst (run_loop w ag y)" using same by simp
    also note IH [THEN conjunct1]
    finally have first: "fst (run_loop w ag s) =
           Inr (let texts = fullResponseContent s @
                      filter (\<lambda>t. t \<noteq> [])
                        (map (reply_text ag) (drop ?n (llm_calls (snd (run_loop w ag s)))))
                in if length texts > 0 then join (NL @ NL) texts
                   else ''Maximum iterations reached. The agent may be stuck in a loop.'')"
      unfolding texts .
    have "length (llm_calls (snd (run_loop w ag s))) =
        length (llm_calls y) + (max_iterations (agent_config ag) - iteration y)"
      using IH [THEN conjunct2] same by simp
    also have "\<dots> = ?n + (max_iterations (agent_config ag) - iteration s)"
      using calls_y it_y True by simp
    finally show ?thesis using first by blast
  qed
qed


lemma run_loop_completes:
  assumes "rq \<in> set (drop (length (llm_calls s)) (llm_calls (snd (run_loop w ag s))))"
      and "client ag rq = Inr r"
      and "message_of r = Some am"
      and "tool_calls am = Some calls"
      and "\<exists>c\<in>set calls. fn_name c = ''mark_task_complete''"
  shows "fst (run_loop w ag s) =
           Inr (join (NL @ NL)
                  (fullResponseContent s @
                   filter (\<lambda>t. t \<noteq> [])
                     (map (reply_text ag)
                        (drop (length (llm_calls s)) (llm_calls (snd (run_loop w ag s))))))) \<and>
         (\<exists>before. drop (length (llm_calls s)) (llm_calls (snd (run_loop w ag s))) = before @ [rq] \<and>
                    rq \<notin> set before) \<and>
         messages (snd (run_loop w ag s)) =
           rq_messages rq @ Assistant (content am) (tool_calls am) #
             map (handleToolCall w ag)
               (takeWhile (\<lambda>c. fn_name c \<noteq> ''mark_task_complete'') calls @
                take 1 (dropWhile (\<lambda>c. fn_name c \<noteq> ''mark_task_complete'') calls))"
  using assms
proof (induction w ag s rule: run_loop.induct)
  case (1 w ag s)
  note p = "1.prems"
  let ?rq = "request_of ag (messages s)"
  let ?n = "length (llm_calls s)"
  have lt: "iteration s < max_iterations (agent_config ag)"
  proof (rule ccontr)
    assume "\<not> iteration s < max_iterations (agent_config ag)"
    then have "run_loop w ag s =
        (Inr (if length (fullResponseContent s) > 0
              then join (NL @ NL) (fullResponseContent s)
              else ''Maximum iterations reached. The agent may be stuck in a loop.''), s)"
      by (subst run_loop.simps) simp
    with p(1) show False by simp
  qed
  show ?case
  proof (cases rule: loop_body_cases [of ag s])
    case (raises e)
    then have "run_loop w ag s = (Inl (''Error: LLM call failed: '' @ e),
        s\<lparr>iteration := Suc (iteration s), llm_calls := llm_calls s @ [?rq]\<rparr>)"
      using lt by (subst run_loop.simps) (simp add: loop_body_raises callLLM_Inl)
    with p(1) have "rq = ?rq" by simp
    with raises have "client ag rq = Inl e" by simp
    with p(2) have False by simp
    then show ?thesis ..
  next
    case (no_message r')
    then have "run_loop w ag s = (Inl ''TypeError: Cannot read properties of undefined'',
        s\<lparr>iteration := Suc (iteration s), llm_calls := llm_calls s @ [?rq]\<rparr>)"
      using lt by (subst run_loop.simps) (simp add: loop_body_no_message)
    with p(1) have "rq = ?rq" by simp
    moreover have "client ag ?rq = Inr r'" using no_message(1) by (simp add: callLLM_Inr)
    ultimately have "client ag rq = Inr r'" by simp
    with p(2) have "r' = r" by simp
    with no_message(2) p(3) have False by simp
    then show ?thesis ..
  next
    case (returns r' am' calls')
    note res = run_loop_completion [OF lt returns, of w]
    with p(1) have rq: "rq = ?rq" by simp
    have "client ag ?rq = Inr r'" using returns(1) by (simp add: callLLM_Inr)
    with rq p(2) have "r' = r" by simp
    with returns(2,3) p(3,4) have eq: "am' = am" "calls' = calls" by simp_all
    have m: "rq_messages rq = messages s" using rq by (simp add: request_of_def)
    have t: "reply_text ag rq = (case content am of None \<Rightarrow> [] | Some t \<Rightarrow> t)"
      using p(2,3) by simp
    show ?thesis
      unfolding res using rq eq m t p(2,3)
      by (simp add: pushed_filter)
  next
    case (continues r' am')
    note body = loop_body_continues [OF continues, of w]
    obtain y where y: "loop_body w ag s = (None, y)"
      and calls_y: "llm_calls y = llm_calls s @ [?rq]"
      and frc_y: "fullResponseContent y = fullResponseContent s @ pushed (content am')"
      using body by simp
    have same: "run_loop w ag s = run_loop w ag y"
      using lt y by (subst run_loop.simps) simp
    obtain zs where zs: "llm_calls (snd (run_loop w ag y)) = llm_calls y @ zs"
      using run_loop_llm_calls_extend by blast
    have dropn: "drop ?n (llm_calls (snd (run_loop w ag s))) = ?rq # zs"
      using same zs calls_y by simp
    have dropy: "drop (length (llm_calls y)) (llm_calls (snd (run_loop w ag y))) = zs"
      using zs by simp
    have cl: "client ag ?rq = Inr r'" using continues(1) by (simp add: callLLM_Inr)
    have ne: "rq \<noteq> ?rq"
    proof
      assume "rq = ?rq"
      with cl p(2) have "r' = r" by simp
      with continues(2) p(3) have "am' = am" by simp
      with continues(3) p(4,5) show False by blast
    qed
    with p(1) dropn have "rq \<in> set zs" by simp
    then have prem_y: "rq \<in> set (drop (length (llm_calls y)) (llm_calls (snd (run_loop w ag y))))"
      using dropy by simp
    note IH = "1.IH" [OF lt y [symmetric] refl prem_y p(2-5)]
    from IH obtain before where b: "zs = before @ [rq]" "rq \<notin> set before"
      unfolding dropy by blast
    have t: "reply_text ag ?rq = (case content am' of None \<Rightarrow> [] | Some t \<Rightarrow> t)"
      using cl continues(2) by simp
    have texts: "fullResponseContent y @
          filter (\<lambda>t. t \<noteq> []) (map (reply_text ag) zs) =
        fullResponseContent s @
          filter (\<lambda>t. t \<noteq> []) (map (reply_text ag) (?rq # zs))"
      unfolding frc_y using t by (simp add: pushed_filter)
    have c1: "fst (run_loop w ag s) =
           Inr (join (NL @ NL)
                  (fullResponseContent s @
                   filter (\<lambda>t. t \<noteq> []) (map (reply_text ag) (?rq # zs))))"
      using IH [THEN conjunct1] unfolding dropy same texts .
    have c2: "\<exists>before. ?rq # zs = before @ [rq] \<and> rq \<notin> set before"
    proof (intro exI conjI)
      show "?rq # zs = (?rq # before) @ [rq]" using b(1) by simp
      show "rq \<notin> set (?rq # before)" using b(2) ne by simp
    qed
    have c3: "messages (snd (run_loop w ag s)) =
           rq_messages rq @ Assistant (content am) (tool_calls am) #
             map (handleToolCall w ag)
               (takeWhile (\<lambda>c. fn_name c \<noteq> ''mark_task_complete'') calls @
                take 1 (dropWhile (\<lambda>c. fn_name c \<noteq> ''mark_task_complete'') calls))"
      using IH same by simp
    show ?thesis unfolding dropn using c1 c2 c3 by blast
  qed
qed


text \<open>The definitions that evaluating a sample run of an agent unfolds.\<close>

lemmas sample_agent_run =
  run_def run_loop.simps loop_body_def callLLM_def request_of_def message_of_def
  new_OpenRouterAgent_def sample_env_def sample_env_of_def sample_config_def Let_def
  sample_parse_def sample_tools_def call_def handleToolCall_def error_payload_def
  toOpenRouterSchema_def scripted_def

text \<open>
  C2. When a reply's batch of tool calls contains a call named
  \<^verbatim>\<open>mark_task_complete\<close>, the loop returns in that pass. First conjunct, for any pass:
  the value is the join, with a blank line between, of the texts accumulated so
  far and this reply's text if it is not empty; one request has been added to the
  log and none follows; tool messages are appended for the calls up to and
  including the first completion call, and for no later one. Second conjunct: when
  this happens on the first reply, \<^verbatim>\<open>run\<close> has made exactly one model call and returns
  that reply's text. Third conjunct, for a whole run: when the reply to one of its
  requests has such a call, that request is the last one of the run, the value is
  the join, with a blank line between, of the non-empty texts of the replies to
  all requests of the run, in order, and the conversation ends with the tool
  messages up to the first completion call.
\<close>

theorem completion_signal_returns_at_once:
  "(iteration s < max_iterations (agent_config ag) \<and>
    callLLM ag (messages s) = Inr r \<and> message_of r = Some am \<and> tool_calls am = Some calls \<and>
    (\<exists>c\<in>set calls. fn_name c = ''mark_task_complete'') \<longrightarrow>
      run_loop w ag s =
        (Inr (join (NL @ NL)
                (fullResponseContent s @
                 filter (\<lambda>t. t \<noteq> []) [case content am of None \<Rightarrow> [] | Some t \<Rightarrow> t])),
         s\<lparr>iteration := Suc (iteration s),
           llm_calls := llm_calls s @ [request_of ag (messages s)],
           messages := messages s @ Assistant (content am) (tool_calls am) #
             map (handleToolCall w ag)
               (takeWhile (\<lambda>c. fn_name c \<noteq> ''mark_task_complete'') calls @
                take 1 (dropWhile (\<lambda>c. fn_name c \<noteq> ''mark_task_complete'') calls)),
           fullResponseContent := fullResponseContent s @
             filter (\<lambda>t. t \<noteq> []) [case content am of None \<Rightarrow> [] | Some t \<Rightarrow> t]\<rparr>)) \<and>
   (0 < max_iterations (agent_config ag) \<and>
    callLLM ag [System (system_prompt (agent_config ag)), User task] = Inr r \<and>
    message_of r = Some am \<and> tool_calls am = Some calls \<and>
    (\<exists>c\<in>set calls. fn_name c = ''mark_task_complete'') \<longrightarrow>
      fst (run w ag task) = Inr (case content am of None \<Rightarrow> [] | Some text \<Rightarrow> text) \<and>
      length (llm_calls (snd (run w ag task))) = 1) \<and>
   (rq \<in> set (llm_calls (snd (run w ag task))) \<and>
    client ag rq = Inr r \<and> message_of r = Some am \<and> tool_calls am = Some calls \<and>
    (\<exists>c\<in>set calls. fn_name c = ''mark_task_complete'') \<longrightarrow>
      fst (run w ag task) =
        Inr (join (NL @ NL)
               (filter (\<lambda>t. t \<noteq> [])
                  (map (reply_text ag) (llm_calls (snd (run w ag task)))))) \<and>
      (\<exists>before. llm_calls (snd (run w ag task)) = before @ [rq] \<and> rq \<notin> set before) \<and>
      messages (snd (run w ag task)) =
        rq_messages rq @ Assistant (content am) (tool_calls am) #
          map (handleToolCall w ag)
            (takeWhile (\<lambda>c. fn_name c \<noteq> ''mark_task_complete'') calls @
             take 1 (dropWhile (\<lambda>c. fn_name c \<noteq> ''mark_task_complete'') calls)))"
proof (intro conjI impI)
  assume "iteration s < max_iterations (agent_config ag) \<and>
    callLLM ag (messages s) = Inr r \<and> message_of r = Some am \<and> tool_calls am = Some calls \<and>
    (\<exists>c\<in>set calls. fn_name c = ''mark_task_complete'')"
  then show "run_loop w ag s =
        (Inr (join (NL @ NL)
                (fullResponseContent s @
                 filter (\<lambda>t. t \<noteq> []) [case content am of None \<Rightarrow> [] | Some t \<Rightarrow> t])),
         s\<lparr>iteration := Suc (iteration s),
           llm_calls := llm_calls s @ [request_of ag (messages s)],
           messages := messages s @ Assistant (content am) (tool_calls am) #
             map (handleToolCall w ag)
               (takeWhile (\<lambda>c. fn_name c \<noteq> ''mark_task_complete'') calls @
                take 1 (dropWhile (\<lambda>c. fn_name c \<noteq> ''mark_task_complete'') calls)),
           fullResponseContent := fullResponseContent s @
             filter (\<lambda>t. t \<noteq> []) [case content am of None \<Rightarrow> [] | Some t \<Rightarrow> t]\<rparr>)"
    using run_loop_completion [of s ag r am calls w] pushed_filter [of "content am"] by simp
next
  assume a: "0 < max_iterations (agent_config ag) \<and>
    callLLM ag [System (system_prompt (agent_config ag)), User task] = Inr r \<and>
    message_of r = Some am \<and> tool_calls am = Some calls \<and>
    (\<exists>c\<in>set calls. fn_name c = ''mark_task_complete'')"
  let ?s = "\<lparr>messages = [System (system_prompt (agent_config ag)), User task],
        fullResponseContent = [], iteration = 0, llm_calls = []\<rparr>"
  have res: "run_loop w ag ?s =
        (Inr (join (NL @ NL) (fullResponseContent ?s @ pushed (content am))),
         ?s\<lparr>iteration := Suc (iteration ?s),
           llm_calls := llm_calls ?s @ [request_of ag (messages ?s)],
           messages := messages ?s @ Assistant (content am) (tool_calls am) #
             map (handleToolCall w ag)
               (takeWhile (\<lambda>c. fn_name c \<noteq> ''mark_task_complete'') calls @
                take 1 (dropWhile (\<lambda>c. fn_name c \<noteq> ''mark_task_complete'') calls)),
           fullResponseContent := fullResponseContent ?s @ pushed (content am)\<rparr>)"
    using a by (intro run_loop_completion [where r = r]) simp_all
  have j: "join (NL @ NL) (pushed (content am)) = (case content am of None \<Rightarrow> [] | Some text \<Rightarrow> text)"
    by (cases "content am") simp_all
  show "fst (run w ag task) = Inr (case content am of None \<Rightarrow> [] | Some text \<Rightarrow> text)"
    unfolding run_def res using j by simp
  show "length (llm_calls (snd (run w ag task))) = 1"
    unfolding run_def res by simp
next
  assume a: "rq \<in> set (llm_calls (snd (run w ag task))) \<and>
    client ag rq = Inr r \<and> message_of r = Some am \<and> tool_calls am = Some calls \<and>
    (\<exists>c\<in>set calls. fn_name c = ''mark_task_complete'')"
  let ?s = "\<lparr>messages = [System (system_prompt (agent_config ag)), User task],
        fullResponseContent = [], iteration = 0, llm_calls = []\<rparr>"
  from a have "rq \<in> set (drop (length (llm_calls ?s)) (llm_calls (snd (run_loop w ag ?s))))"
    by (simp add: run_def)
  note c = run_loop_completes [OF this, of r am calls]
  from a c show "fst (run w ag task) =
        Inr (join (NL @ NL)
               (filter (\<lambda>t. t \<noteq> [])
                  (map (reply_text ag) (llm_calls (snd (run w ag task))))))"
    by (simp add: run_def)
  from a c show "\<exists>before. llm_calls (snd (run w ag task)) = before @ [rq] \<and> rq \<notin> set before"
    by (simp add: run_def)
  from a c show "messages (snd (run w ag task)) =
        rq_messages rq @ Assistant (content am) (tool_calls am) #
          map (handleToolCall w ag)
            (takeWhile (\<lambda>c. fn_name c \<noteq> ''mark_task_complete'') calls @
             take 1 (dropWhile (\<lambda>c. fn_name c \<noteq> ''mark_task_complete'') calls))"
    by (simp add: run_def)
qed

theorem completion_signal_returns_at_once_witness:
  "fst (run (sample_env completing) (new_OpenRouterAgent (sample_env completing) In_main (sample_config 3))
          (JStr ''Test input'')) = Inr ''Task completed'' \<and>
   length (llm_calls (snd (run (sample_env completing)
          (new_OpenRouterAgent (sample_env completing) In_main (sample_config 3))
          (JStr ''Test input'')))) = 1 \<and>
   messages (snd (run_loop (sample_env completing)
          (new_OpenRouterAgent (sample_env completing) In_main (sample_config 3))
          \<lparr>messages = [System ''Test prompt'', User (JStr ''Test input'')],
           fullResponseContent = [], iteration = 0, llm_calls = []\<rparr>)) =
     [System ''Test prompt'', User (JStr ''Test input''),
      Assistant (Some ''Task completed'')
        (Some [call ''call_1'' ''search_web'' ''{}'',
               call ''call_2'' ''mark_task_complete'' ''{}'',
               call ''call_3'' ''search_web'' ''{}'']),
      Tool ''call_1'' ''search_web'' (stringify (JObj [(''results'', JArr [])])),
      Tool ''call_2'' ''mark_task_complete'' (stringify (JObj [(''status'', JStr ''completed'')]))] \<and>
   map (reply_text (new_OpenRouterAgent
          (sample_env (scripted
             [\<lparr>content = Some [], tool_calls = None\<rparr>,
              \<lparr>content = Some ''Thinking'', tool_calls = Some [call ''call_1'' ''search_web'' ''{}'']\<rparr>,
              \<lparr>content = Some ''Done'',
               tool_calls = Some [call ''call_2'' ''mark_task_complete'' ''{}'',
                                  call ''call_3'' ''search_web'' ''{}'']\<rparr>]))
          In_main (sample_config 3)))
     (llm_calls (snd (run
        (sample_env (scripted
           [\<lparr>content = Some [], tool_calls = None\<rparr>,
            \<lparr>content = Some ''Thinking'', tool_calls = Some [call ''call_1'' ''search_web'' ''{}'']\<rparr>,
            \<lparr>content = Some ''Done'',
             tool_calls = Some [call ''call_2'' ''mark_task_complete'' ''{}'',
                                call ''call_3'' ''search_web'' ''{}'']\<rparr>]))
        (new_OpenRouterAgent
          (sample_env (scripted
             [\<lparr>content = Some [], tool_calls = None\<rparr>,
              \<lparr>content = Some ''Thinking'', tool_calls = Some [call ''call_1'' ''search_web'' ''{}'']\<rparr>,
              \<lparr>content = Some ''Done'',
               tool_calls = Some [call ''call_2'' ''mark_task_complete'' ''{}'',
                                  call ''call_3'' ''search_web'' ''{}'']\<rparr>]))
          In_main (sample_config 3))
        (JStr ''Test input'')))) = [[], ''Thinking'', ''Done''] \<and>
   fst (run
        (sample_env (scripted
           [\<lparr>content = Some [], tool_calls = None\<rparr>,
            \<lparr>content = Some ''Thinking'', tool_calls = Some [call ''call_1'' ''search_web'' ''{}'']\<rparr>,
            \<lparr>content = Some ''Done'',
             tool_calls = Some [call ''call_2'' ''mark_task_complete'' ''{}'',
                                call ''call_3'' ''search_web'' ''{}'']\<rparr>]))
        (new_OpenRouterAgent
          (sample_env (scripted
             [\<lparr>content = Some [], tool_calls = None\<rparr>,
              \<lparr>content = Some ''Thinking'', tool_calls = Some [call ''call_1'' ''search_web'' ''{}'']\<rparr>,
              \<lparr>content = Some ''Done'',
               tool_calls = Some [call ''call_2'' ''mark_task_complete'' ''{}'',
                                  call ''call_3'' ''search_web'' ''{}'']\<rparr>]))
          In_main (sample_config 3))
        (JStr ''Test input'')) = Inr (''Thinking'' @ NL @ NL @ ''Done'') \<and>
   drop 5 (messages (snd (run
        (sample_env (scripted
           [\<lparr>content = Some [], tool_calls = None\<rparr>,
            \<lparr>content = Some ''Thinking'', tool_calls = Some [call ''call_1'' ''search_web'' ''{}'']\<rparr>,
            \<lparr>content = Some ''Done'',
             tool_calls = Some [call ''call_2'' ''mark_task_complete'' ''{}'',
                                call ''call_3'' ''search_web'' ''{}'']\<rparr>]))
        (new_OpenRouterAgent
          (sample_env (scripted
             [\<lparr>content = Some [], tool_calls = None\<rparr>,
              \<lparr>content = Some ''Thinking'', tool_calls = Some [call ''call_1'' ''search_web'' ''{}'']\<rparr>,
              \<lparr>content = Some ''Done'',
               tool_calls = Some [call ''call_2'' ''mark_task_complete'' ''{}'',
                                  call ''call_3'' ''search_web'' ''{}'']\<rparr>]))
          In_main (sample_config 3))
        (JStr ''Test input'')))) =
     [Assistant (Some ''Done'')
        (Some [call ''call_2'' ''mark_task_complete'' ''{}'', call ''call_3'' ''search_web'' ''{}'']),
      Tool ''call_2'' ''mark_task_complete'' (stringify (JObj [(''status'', JStr ''completed'')]))]"
proof -
  let ?m = "\<lparr>content = Some ''Task completed'',
          tool_calls = Some [call ''call_1'' ''search_web'' ''{}'',
                             call ''call_2'' ''mark_task_complete'' ''{}'',
                             call ''call_3'' ''search_web'' ''{}'']\<rparr>"
  let ?a = "new_OpenRouterAgent (sample_env completing) In_main (sample_config 3)"
  note first = completion_signal_returns_at_once
    [where s = "\<lparr>messages = [System ''Test prompt'', User (JStr ''Test input'')],
           fullResponseContent = [], iteration = 0, llm_calls = []\<rparr>"
       and ag = ?a and r = "\<lparr>choices = [Some ?m]\<rparr>" and am = ?m
       and calls = "[call ''call_1'' ''search_web'' ''{}'',
          call ''call_2'' ''mark_task_complete'' ''{}'',
          call ''call_3'' ''search_web'' ''{}'']"
       and w = "sample_env completing" and task = "JStr ''Test input''"
       and rq = "request_of ?a [System ''Test prompt'', User (JStr ''Test input'')]"]
  have part1: "fst (run (sample_env completing) ?a (JStr ''Test input'')) = Inr ''Task completed'' \<and>
   length (llm_calls (snd (run (sample_env completing) ?a (JStr ''Test input'')))) = 1 \<and>
   messages (snd (run_loop (sample_env completing) ?a
          \<lparr>messages = [System ''Test prompt'', User (JStr ''Test input'')],
           fullResponseContent = [], iteration = 0, llm_calls = []\<rparr>)) =
     [System ''Test prompt'', User (JStr ''Test input''),
      Assistant (Some ''Task completed'')
        (Some [call ''call_1'' ''search_web'' ''{}'',
               call ''call_2'' ''mark_task_complete'' ''{}'',
               call ''call_3'' ''search_web'' ''{}'']),
      Tool ''call_1'' ''search_web'' (stringify (JObj [(''results'', JArr [])])),
      Tool ''call_2'' ''mark_task_complete'' (stringify (JObj [(''status'', JStr ''completed'')]))]"
    using first
    by (simp add: callLLM_def request_of_def new_OpenRouterAgent_def sample_env_def
        sample_env_of_def message_of_def sample_config_def completing_def call_def
        handleToolCall_def sample_parse_def sample_tools_def)
  let ?m3 = "\<lparr>content = Some ''Done'',
             tool_calls = Some [call ''call_2'' ''mark_task_complete'' ''{}'',
                                call ''call_3'' ''search_web'' ''{}'']\<rparr>"
  let ?w = "sample_env (scripted
           [\<lparr>content = Some [], tool_calls = None\<rparr>,
            \<lparr>content = Some ''Thinking'', tool_calls = Some [call ''call_1'' ''search_web'' ''{}'']\<rparr>,
            ?m3])"
  let ?b = "new_OpenRouterAgent ?w In_main (sample_config 3)"
  let ?run = "run ?w ?b (JStr ''Test input'')"
  have len: "length (llm_calls (snd ?run)) = 3"
    by (simp add: sample_agent_run)
  then have h1: "last (llm_calls (snd ?run)) \<in> set (llm_calls (snd ?run))"
    by (intro last_in_set) auto
  have h2: "client ?b (last (llm_calls (snd ?run))) = Inr \<lparr>choices = [Some ?m3]\<rparr>"
    by (simp add: sample_agent_run)
  have texts: "map (reply_text ?b) (llm_calls (snd ?run)) = [[], ''Thinking'', ''Done'']"
    by (simp add: sample_agent_run)
  have len5: "length (rq_messages (last (llm_calls (snd ?run)))) = 5"
    by (simp add: sample_agent_run)
  note whole = completion_signal_returns_at_once
    [where ag = ?b and r = "\<lparr>choices = [Some ?m3]\<rparr>" and am = ?m3
       and calls = "[call ''call_2'' ''mark_task_complete'' ''{}'',
                     call ''call_3'' ''search_web'' ''{}'']"
       and w = ?w and task = "JStr ''Test input''"
       and rq = "last (llm_calls (snd ?run))", THEN conjunct2, THEN conjunct2]
  have hyp: "last (llm_calls (snd ?run)) \<in> set (llm_calls (snd ?run)) \<and>
      client ?b (last (llm_calls (snd ?run))) = Inr \<lparr>choices = [Some ?m3]\<rparr> \<and>
      message_of \<lparr>choices = [Some ?m3]\<rparr> = Some ?m3 \<and>
      tool_calls ?m3 = Some [call ''call_2'' ''mark_task_complete'' ''{}'',
                             call ''call_3'' ''search_web'' ''{}''] \<and>
      (\<exists>c\<in>set [call ''call_2'' ''mark_task_complete'' ''{}'',
                 call ''call_3'' ''search_web'' ''{}'']. fn_name c = ''mark_task_complete'')"
    using h1 h2 by (simp add: message_of_def call_def)
  note concl = whole [rule_format, OF hyp]
  have v: "fst ?run = Inr (''Thinking'' @ NL @ NL @ ''Done'')"
    using concl [THEN conjunct1] unfolding texts by simp
  have tail: "drop 5 (messages (snd ?run)) =
     [Assistant (Some ''Done'')
        (Some [call ''call_2'' ''mark_task_complete'' ''{}'', call ''call_3'' ''search_web'' ''{}'']),
      Tool ''call_2'' ''mark_task_complete'' (stringify (JObj [(''status'', JStr ''completed'')]))]"
    using concl [THEN conjunct2, THEN conjunct2] len5
    by (simp add: call_def handleToolCall_def new_OpenRouterAgent_def sample_env_def
        sample_env_of_def sample_parse_def sample_tools_def Let_def)
  show ?thesis using part1 texts v tail by blast
qed

text \<open>
  C3. In a run where every model call is answered, by a reply without a call named
  \<^verbatim>\<open>mark_task_complete\<close>, exactly \<open>max_iterations\<close> model calls are made, and \<^verbatim>\<open>run\<close>
  returns the texts of the replies that are not empty, in order, joined with a
  blank line between, or the fixed message when no reply has a non-empty text.
\<close>

theorem no_completion_exhausts_budget:
  assumes "\<forall>rq\<in>set (llm_calls (snd (run w ag task))).
             \<exists>r am. client ag rq = Inr r \<and> message_of r = Some am \<and>
               (\<forall>calls. tool_calls am = Some calls \<longrightarrow>
                  (\<forall>c\<in>set calls. fn_name c \<noteq> ''mark_task_complete''))"
  shows "length (llm_calls (snd (run w ag task))) = max_iterations (agent_config ag) \<and>
         fst (run w ag task) =
           Inr (let texts = filter (\<lambda>t. t \<noteq> [])
                              (map (reply_text ag) (llm_calls (snd (run w ag task))))
                in if length texts > 0 then join (NL @ NL) texts
                   else ''Maximum iterations reached. The agent may be stuck in a loop.'')"
  using run_loop_exhausts
    [of "\<lparr>messages = [System (system_prompt (agent_config ag)), User task],
          fullResponseContent = [], iteration = 0, llm_calls = []\<rparr>" w ag]
    assms
  by (simp add: run_def)

theorem no_completion_exhausts_budget_witness:
  "length (llm_calls (snd (run (sample_env always_response)
       (new_OpenRouterAgent (sample_env always_response) In_main (sample_config 3))
       (JStr ''Test input'')))) = 5 \<and>
   fst (run (sample_env always_response)
       (new_OpenRouterAgent (sample_env always_response) In_main (sample_config 3))
       (JStr ''Test input'')) =
     Inr (''Response'' @ NL @ NL @ ''Response'' @ NL @ NL @ ''Response'' @ NL @ NL @
          ''Response'' @ NL @ NL @ ''Response'') \<and>
   fst (run
       (sample_env (scripted
          [\<lparr>content = Some [], tool_calls = None\<rparr>, \<lparr>content = Some ''A'', tool_calls = None\<rparr>,
           \<lparr>content = None, tool_calls = None\<rparr>, \<lparr>content = Some ''B'', tool_calls = Some []\<rparr>,
           \<lparr>content = Some [], tool_calls = None\<rparr>]))
       (new_OpenRouterAgent
          (sample_env (scripted
             [\<lparr>content = Some [], tool_calls = None\<rparr>, \<lparr>content = Some ''A'', tool_calls = None\<rparr>,
              \<lparr>content = None, tool_calls = None\<rparr>, \<lparr>content = Some ''B'', tool_calls = Some []\<rparr>,
              \<lparr>content = Some [], tool_calls = None\<rparr>]))
          In_main (sample_config 3))
       (JStr ''Test input'')) = Inr (''A'' @ NL @ NL @ ''B'') \<and>
   fst (run
       (sample_env (scripted
          [\<lparr>content = Some [], tool_calls = None\<rparr>, \<lparr>content = None, tool_calls = None\<rparr>,
           \<lparr>content = Some [], tool_calls = None\<rparr>, \<lparr>content = None, tool_calls = None\<rparr>,
           \<lparr>content = Some [], tool_calls = None\<rparr>]))
       (new_OpenRouterAgent
          (sample_env (scripted
             [\<lparr>content = Some [], tool_calls = None\<rparr>, \<lparr>content = None, tool_calls = None\<rparr>,
              \<lparr>content = Some [], tool_calls = None\<rparr>, \<lparr>content = None, tool_calls = None\<rparr>,
              \<lparr>content = Some [], tool_calls = None\<rparr>]))
          In_main (sample_config 3))
       (JStr ''Test input'')) =
     Inr ''Maximum iterations reached. The agent may be stuck in a loop.''"
proof -
  let ?ag = "new_OpenRouterAgent (sample_env always_response) In_main (sample_config 3)"
  let ?run = "run (sample_env always_response) ?ag (JStr ''Test input'')"
  have c: "client ?ag = (\<lambda>rq. Inr \<lparr>choices = [Some \<lparr>content = Some ''Response'', tool_calls = None\<rparr>]\<rparr>)"
    by (auto simp: new_OpenRouterAgent_def sample_env_def sample_env_of_def always_response_def)
  have m: "max_iterations (agent_config ?ag) = 5"
    by (simp add: new_OpenRouterAgent_def sample_config_def)
  have h: "\<forall>rq\<in>set (llm_calls (snd ?run)).
             \<exists>r am. client ?ag rq = Inr r \<and> message_of r = Some am \<and>
               (\<forall>calls. tool_calls am = Some calls \<longrightarrow>
                  (\<forall>c\<in>set calls. fn_name c \<noteq> ''mark_task_complete''))"
    unfolding c by (simp add: message_of_def)
  note t = no_completion_exhausts_budget [OF h]
  have len: "length (llm_calls (snd ?run)) = 5" using t m by simp
  have "filter (\<lambda>t. t \<noteq> []) (map (reply_text ?ag) (llm_calls (snd ?run))) =
        replicate (length (llm_calls (snd ?run))) ''Response''"
    unfolding c by (simp add: message_of_def map_replicate_const)
  also have "\<dots> = [''Response'', ''Response'', ''Response'', ''Response'', ''Response'']"
    unfolding len by (simp add: numeral_eq_Suc)
  finally have part1: "length (llm_calls (snd ?run)) = 5 \<and>
      fst ?run = Inr (''Response'' @ NL @ NL @ ''Response'' @ NL @ NL @ ''Response'' @ NL @ NL @
          ''Response'' @ NL @ NL @ ''Response'')"
    using t len by simp
  let ?w2 = "sample_env (scripted
          [\<lparr>content = Some [], tool_calls = None\<rparr>, \<lparr>content = Some ''A'', tool_calls = None\<rparr>,
           \<lparr>content = None, tool_calls = None\<rparr>, \<lparr>content = Some ''B'', tool_calls = Some []\<rparr>,
           \<lparr>content = Some [], tool_calls = None\<rparr>])"
  let ?ag2 = "new_OpenRouterAgent ?w2 In_main (sample_config 3)"
  let ?run2 = "run ?w2 ?ag2 (JStr ''Test input'')"
  have h2: "\<forall>rq\<in>set (llm_calls (snd ?run2)).
             \<exists>r am. client ?ag2 rq = Inr r \<and> message_of r = Some am \<and>
               (\<forall>calls. tool_calls am = Some calls \<longrightarrow>
                  (\<forall>c\<in>set calls. fn_name c \<noteq> ''mark_task_complete''))"
    by (simp add: sample_agent_run)
  have texts2: "map (reply_text ?ag2) (llm_calls (snd ?run2)) = [[], ''A'', [], ''B'', []]"
    by (simp add: sample_agent_run)
  have part2: "fst ?run2 = Inr (''A'' @ NL @ NL @ ''B'')"
    using no_completion_exhausts_budget [OF h2] unfolding texts2 by simp
  let ?w3 = "sample_env (scripted
          [\<lparr>content = Some [], tool_calls = None\<rparr>, \<lparr>content = None, tool_calls = None\<rparr>,
           \<lparr>content = Some [], tool_calls = None\<rparr>, \<lparr>content = None, tool_calls = None\<rparr>,
           \<lparr>content = Some [], tool_calls = None\<rparr>])"
  let ?ag3 = "new_OpenRouterAgent ?w3 In_main (sample_config 3)"
  let ?run3 = "run ?w3 ?ag3 (JStr ''Test input'')"
  have h3: "\<forall>rq\<in>set (llm_calls (snd ?run3)).
             \<exists>r am. client ?ag3 rq = Inr r \<and> message_of r = Some am \<and>
               (\<forall>calls. tool_calls am = Some calls \<longrightarrow>
                  (\<forall>c\<in>set calls. fn_name c \<noteq> ''mark_task_complete''))"
    by (simp add: sample_agent_run)
  have texts3: "map (reply_text ?ag3) (llm_calls (snd ?run3)) = [[], [], [], [], []]"
    by (simp add: sample_agent_run)
  have part3: "fst ?run3 = Inr ''Maximum iterations reached. The agent may be stuck in a loop.''"
    using no_completion_exhausts_budget [OF h3] unfolding texts3 by simp
  show ?thesis using part1 part2 part3 by blast
qed







text \<open>
  C9. The completion check of the loop reads the name of the tool call alone. The
  question agent of \<^verbatim>\<open>decomposeTask\<close> has no tool of that name in its mapping; for
  any agent without it, a reply with a tool call \<open>c\<close> named \<^verbatim>\<open>mark_task_complete\<close>
  still ends the run in that pass, with the accumulated texts as the value and no
  further model call, while the call itself is answered with an error payload.
\<close>

theorem completion_by_name_alone:
  "toolMapping (questionAgent w cfg) ''mark_task_complete'' = None \<and>
   (toolMapping ag ''mark_task_complete'' = None \<and>
    iteration s < max_iterations (agent_config ag) \<and>
    callLLM ag (messages s) = Inr r \<and> message_of r = Some am \<and> tool_calls am = Some calls \<and>
    c \<in> set calls \<and> fn_name c = ''mark_task_complete'' \<longrightarrow>
      fst (run_loop w ag s) =
        Inr (join (NL @ NL) (fullResponseContent s @ pushed (content am))) \<and>
      llm_calls (snd (run_loop w ag s)) = llm_calls s @ [request_of ag (messages s)] \<and>
      iteration (snd (run_loop w ag s)) = Suc (iteration s) \<and>
      handleToolCall w ag c =
        Tool (tc_id c) ''mark_task_complete''
          (error_payload w
             (case JSON_parse w (fn_arguments c) of
                Inr args \<Rightarrow> ''Unknown tool: mark_task_complete''
              | Inl e \<Rightarrow> ''Tool execution failed: '' @ e)))"
proof (intro conjI impI)
  show "toolMapping (questionAgent w cfg) ''mark_task_complete'' = None"
    by (simp add: questionAgent_def Let_def)
next
  assume a: "toolMapping ag ''mark_task_complete'' = None \<and>
    iteration s < max_iterations (agent_config ag) \<and>
    callLLM ag (messages s) = Inr r \<and> message_of r = Some am \<and> tool_calls am = Some calls \<and>
    c \<in> set calls \<and> fn_name c = ''mark_task_complete''"
  then have ex: "\<exists>c\<in>set calls. fn_name c = ''mark_task_complete''" by blast
  from a have res: "run_loop w ag s =
     (Inr (join (NL @ NL) (fullResponseContent s @ pushed (content am))),
      s\<lparr>iteration := Suc (iteration s),
        llm_calls := llm_calls s @ [request_of ag (messages s)],
        messages := messages s @ Assistant (content am) (tool_calls am) #
          map (handleToolCall w ag)
            (takeWhile (\<lambda>c. fn_name c \<noteq> ''mark_task_complete'') calls @
             take 1 (dropWhile (\<lambda>c. fn_name c \<noteq> ''mark_task_complete'') calls)),
        fullResponseContent := fullResponseContent s @ pushed (content am)\<rparr>)"
    using ex by (intro run_loop_completion [where r = r]) simp_all
  show "fst (run_loop w ag s) =
        Inr (join (NL @ NL) (fullResponseContent s @ pushed (content am)))"
    unfolding res by simp
  show "llm_calls (snd (run_loop w ag s)) = llm_calls s @ [request_of ag (messages s)]"
    unfolding res by simp
  show "iteration (snd (run_loop w ag s)) = Suc (iteration s)"
    unfolding res by simp
  show "handleToolCall w ag c =
        Tool (tc_id c) ''mark_task_complete''
          (error_payload w
             (case JSON_parse w (fn_arguments c) of
                Inr args \<Rightarrow> ''Unknown tool: mark_task_complete''
              | Inl e \<Rightarrow> ''Tool execution failed: '' @ e))"
    using a by (simp add: handleToolCall_def Let_def split: sum.splits)
qed

theorem completion_by_name_alone_witness:
  "toolMapping (questionAgent (sample_env completing) (sample_config 3)) ''mark_task_complete'' = None \<and>
   fst (run (sample_env completing) (questionAgent (sample_env completing) (sample_config 3))
          (JStr ''Generate 3 questions for: Test task'')) = Inr ''Task completed'' \<and>
   length (llm_calls (snd (run (sample_env completing)
          (questionAgent (sample_env completing) (sample_config 3))
          (JStr ''Generate 3 questions for: Test task'')))) = 1 \<and>
   handleToolCall (sample_env completing) (questionAgent (sample_env completing) (sample_config 3))
     (call ''call_2'' ''mark_task_complete'' ''{}'') =
     Tool ''call_2'' ''mark_task_complete''
       (stringify (JObj [(''error'', JStr ''Unknown tool: mark_task_complete'')]))"
  using completion_by_name_alone
    [where w = "sample_env completing" and cfg = "sample_config 3"
       and ag = "questionAgent (sample_env completing) (sample_config 3)"
       and s = "\<lparr>messages = [System ''Test prompt'', User (JStr ''Generate 3 questions for: Test task'')],
           fullResponseContent = [], iteration = 0, llm_calls = []\<rparr>"
       and r = "\<lparr>choices = [Some \<lparr>content = Some ''Task completed'',
          tool_calls = Some [call ''call_1'' ''search_web'' ''{}'',
                             call ''call_2'' ''mark_task_complete'' ''{}'',
                             call ''call_3'' ''search_web'' ''{}'']\<rparr>]\<rparr>"
       and am = "\<lparr>content = Some ''Task completed'',
          tool_calls = Some [call ''call_1'' ''search_web'' ''{}'',
                             call ''call_2'' ''mark_task_complete'' ''{}'',
                             call ''call_3'' ''search_web'' ''{}'']\<rparr>"
       and calls = "[call ''call_1'' ''search_web'' ''{}'',
          call ''call_2'' ''mark_task_complete'' ''{}'',
          call ''call_3'' ''search_web'' ''{}'']"
       and c = "call ''call_2'' ''mark_task_complete'' ''{}''"]
  by (simp add: run_def callLLM_def request_of_def message_of_def questionAgent_def
      new_OpenRouterAgent_def sample_env_def sample_env_of_def sample_config_def completing_def
      call_def sample_parse_def sample_tools_def error_payload_def Let_def)

section \<open>The orchestrator: lemmas\<close>

lemma runAgentParallel_fulfils:
  "\<exists>r. fst (runAgentParallel w cfg orch i subtask) = Inr r \<and> agent_id r = i \<and>
       (status r = ''success'' \<or> status r = ''error'')"
  by (simp add: runAgentParallel_def Let_def split: sum.splits)

lemma dispatch_settled:
  "x \<in> set (fst (dispatch w cfg orch i ts)) \<Longrightarrow>
   \<exists>r. x = Inr r \<and> (status r = ''success'' \<or> status r = ''error'')"
proof (induction ts arbitrary: orch i)
  case Nil
  then show ?case by simp
next
  case (Cons t ts)
  obtain a o1 where a: "runAgentParallel w cfg orch i t = (a, o1)"
    by (cases "runAgentParallel w cfg orch i t")
  obtain bs o2 where b: "dispatch w cfg o1 (Suc i) ts = (bs, o2)"
    by (cases "dispatch w cfg o1 (Suc i) ts")
  from Cons.prems a b have "x = a \<or> x \<in> set bs" by simp
  then show ?case
  proof
    assume "x = a"
    then show ?thesis using runAgentParallel_fulfils [of w cfg orch i t] a by auto
  next
    assume "x \<in> set bs"
    then show ?thesis using Cons.IH [of o1 "Suc i"] b by simp
  qed
qed

lemma orchestrate_subtasks:
  "subtasks (orchestrate w cfg orch userInput) = decomposeTask w cfg userInput (parallel_agents cfg)"
  by (simp add: orchestrate_def Let_def split: json.splits prod.splits)

lemma orchestrate_aggregates:
  assumes "subtasks (orchestrate w cfg orch userInput) = JArr ts"
  shows "outcome (orchestrate w cfg orch userInput) =
           Inr (fst (aggregateResults w cfg (results (orchestrate w cfg orch userInput))))"
    and "synthesis_calls (orchestrate w cfg orch userInput) =
           snd (aggregateResults w cfg (results (orchestrate w cfg orch userInput)))"
  using assms unfolding orchestrate_subtasks
  by (simp_all add: orchestrate_def Let_def split: prod.splits)

text \<open>
  \<^verbatim>\<open>orchestrate\<close> raises only when the value of \<^verbatim>\<open>subtasks\<close> is not an array, which is
  a parsed reply of the question agent: the fixed questions are an array.
\<close>

lemma orchestrate_raises_only_on_non_array:
  assumes "isl (outcome (orchestrate w cfg orch userInput))"
  shows "\<exists>q. parsed_questions w cfg userInput (parallel_agents cfg) = Some q \<and>
             subtasks (orchestrate w cfg orch userInput) = q \<and> (\<forall>ts. q \<noteq> JArr ts)"
proof (cases "parsed_questions w cfg userInput (parallel_agents cfg)")
  case None
  then have "\<exists>ts. decomposeTask w cfg userInput (parallel_agents cfg) = JArr ts"
    by (simp add: decomposeTask_def)
  then have "\<not> isl (outcome (orchestrate w cfg orch userInput))"
    by (auto simp: orchestrate_def Let_def split: prod.splits)
  with assms show ?thesis by simp
next
  case (Some q)
  then have d: "decomposeTask w cfg userInput (parallel_agents cfg) = q"
    by (simp add: decomposeTask_def)
  have "\<forall>ts. q \<noteq> JArr ts"
  proof (intro allI notI)
    fix ts assume "q = JArr ts"
    then have "\<not> isl (outcome (orchestrate w cfg orch userInput))"
      using d by (auto simp: orchestrate_def Let_def split: prod.splits)
    with assms show False by simp
  qed
  then show ?thesis using Some d by (simp add: orchestrate_subtasks)
qed

lemma orchestrate_results_settled:
  assumes "r \<in> set (results (orchestrate w cfg orch userInput))"
  shows "status r = ''success'' \<or> status r = ''error''"
proof (cases "decomposeTask w cfg userInput (parallel_agents cfg)")
  case (JArr ts)
  let ?o1 = "foldl (\<lambda>st i. st\<lparr>agentProgress := (agentProgress st)(i \<mapsto> ''QUEUED'')\<rparr>)
               (orch\<lparr>agentProgress := Map.empty, agentResults := Map.empty\<rparr>)
               [0..<parallel_agents cfg]"
  have "results (orchestrate w cfg orch userInput) =
      sort_key agent_id (map (\<lambda>(i, result). settle cfg i result)
        (enumerate 0 (fst (dispatch w cfg ?o1 0 ts))))"
    using JArr by (simp add: orchestrate_def Let_def split: prod.splits)
  with assms obtain j x where jx: "(j, x) \<in> set (enumerate 0 (fst (dispatch w cfg ?o1 0 ts)))"
    and r: "r = settle cfg j x"
    by auto
  from jx have x: "x \<in> set (fst (dispatch w cfg ?o1 0 ts))"
    by (auto simp: in_set_enumerate_eq)
  from dispatch_settled [OF x] obtain r' where "x = Inr r'"
    "status r' = ''success'' \<or> status r' = ''error''" by blast
  then show ?thesis using r by (simp add: settle_def)
qed (use assms in \<open>simp_all add: orchestrate_def Let_def\<close>)

lemma join_contains:
  "x \<in> set xs \<Longrightarrow> \<exists>p q. join sep xs = p @ x @ q"
proof (induction sep xs rule: join.induct)
  case (1 sep)
  then show ?case by simp
next
  case (2 sep y)
  then have "join sep [y] = [] @ x @ []" by simp
  then show ?case by blast
next
  case (3 sep y z zs)
  show ?case
  proof (cases "x = y")
    case True
    then have "join sep (y # z # zs) = [] @ x @ (sep @ join sep (z # zs))" by simp
    then show ?thesis by blast
  next
    case False
    with 3 obtain p q where "join sep (z # zs) = p @ x @ q" by auto
    then have "join sep (y # z # zs) = (y @ sep @ p) @ x @ q" by simp
    then show ?thesis by blast
  qed
qed

lemma combined_contains: "r \<in> set responses \<Longrightarrow> r \<in> set (combined responses)"
  by (auto simp: combined_def in_set_conv_nth)

text \<open>The definitions that evaluating a sample call unfolds.\<close>

lemmas sample_run =
  orchestrate_def decomposeTask_def parsed_questions_def questionAgent_def generationPrompt_def
  replace_def run_def run_loop.simps loop_body_def callLLM_def request_of_def message_of_def
  new_OpenRouterAgent_def sample_env_def sample_env_of_def sample_config_def Let_def
  fallback_questions_def
  runAgentParallel_def updateAgentProgress_def settle_def new_TaskOrchestrator_def
  sample_parse_def sample_tools_def call_def done_with_def handleToolCall_def
  toOpenRouterSchema_def case_prod_beta aggregateResults_def aggregateConsensus_def
  synthesisAgent_def synthesisPrompt_def agentResponsesText_def combined_def toString.simps

text \<open>
  When the sub-tasks were dispatched (the decomposition is an array) and no Agent
  Result has status \<^verbatim>\<open>success\<close>, \<^verbatim>\<open>orchestrate\<close> returns the fixed message, and the
  synthesis agent sends no request.
\<close>

lemma all_failed_message:
  assumes "subtasks (orchestrate w cfg orch userInput) = JArr ts"
      and "\<forall>r\<in>set (results (orchestrate w cfg orch userInput)). status r \<noteq> ''success''"
  shows "outcome (orchestrate w cfg orch userInput) =
           Inr ''All agents failed to provide results. Please try again.'' \<and>
         synthesis_calls (orchestrate w cfg orch userInput) = []"
proof -
  have "filter (\<lambda>r. status r = ''success'') (results (orchestrate w cfg orch userInput)) = []"
    using assms(2) by (simp add: filter_empty_conv)
  then have "aggregateResults w cfg (results (orchestrate w cfg orch userInput)) =
      (''All agents failed to provide results. Please try again.'', [])"
    by (simp add: aggregateResults_def)
  then show ?thesis using orchestrate_aggregates [OF assms(1)] by simp
qed

lemma all_failed_message_sample:
  "outcome (orchestrate (sample_env failing) (sample_config 3) new_TaskOrchestrator ''Test task'') =
     Inr ''All agents failed to provide results. Please try again.'' \<and>
   map status (results (orchestrate (sample_env failing) (sample_config 3)
     new_TaskOrchestrator ''Test task'')) = [''error'', ''error'', ''error'']"
proof -
  let ?o = "orchestrate (sample_env failing) (sample_config 3) new_TaskOrchestrator ''Test task''"
  have s: "subtasks ?o =
     JArr [JStr ''Research comprehensive information about: Test task'',
           JStr ''Analyze and provide insights about: Test task'',
           JStr ''Find alternative perspectives on: Test task'']"
    by (simp add: sample_run failing_def)
  have r: "map status (results ?o) = [''error'', ''error'', ''error'']"
    by (simp add: sample_run failing_def)
  have "\<forall>x\<in>set (map status (results ?o)). x \<noteq> ''success''" unfolding r by simp
  then have h: "\<forall>r\<in>set (results ?o). status r \<noteq> ''success''" by simp
  show ?thesis using all_failed_message [OF s h] r by simp
qed

text \<open>
  C5 fails on the code. With three configured agents, the question agent's reply
  \<^verbatim>\<open>"abc"\<close> parses to a string whose \<^verbatim>\<open>length\<close> is 3, so \<^verbatim>\<open>decomposeTask\<close> returns it;
  a string has no \<^verbatim>\<open>map\<close> method, so \<^verbatim>\<open>orchestrate\<close> raises a TypeError. No sub-agent
  is dispatched and there is no Agent Result, so none has status \<^verbatim>\<open>success\<close>; yet
  the call does not return the fixed message.
\<close>

theorem string_decomposition_raises:
  "fst (run (sample_env string_decomposition)
      (questionAgent (sample_env string_decomposition) (sample_config 3))
      (JStr ''Generate 3 questions for: Test task'')) =
     Inr [CHR 0x22, CHR ''a'', CHR ''b'', CHR ''c'', CHR 0x22] \<and>
   subtasks (orchestrate (sample_env string_decomposition) (sample_config 3)
     new_TaskOrchestrator ''Test task'') = JStr ''abc'' \<and>
   results (orchestrate (sample_env string_decomposition) (sample_config 3)
     new_TaskOrchestrator ''Test task'') = [] \<and>
   outcome (orchestrate (sample_env string_decomposition) (sample_config 3)
     new_TaskOrchestrator ''Test task'') = Inl ''TypeError: subtasks.map is not a function''"
  by (simp add: sample_run string_decomposition_def trim_def is_ws_def)

text \<open>
  C6. When the sub-tasks were dispatched and exactly one Agent Result has status
  \<^verbatim>\<open>success\<close>, \<^verbatim>\<open>orchestrate\<close> returns that result's response unchanged, and the
  synthesis agent sends no request.
\<close>

theorem single_success_verbatim:
  assumes "subtasks (orchestrate w cfg orch userInput) = JArr ts"
      and "filter (\<lambda>r. status r = ''success'') (results (orchestrate w cfg orch userInput)) = [r]"
  shows "outcome (orchestrate w cfg orch userInput) = Inr (response r) \<and>
         synthesis_calls (orchestrate w cfg orch userInput) = []"
proof -
  have "aggregateResults w cfg (results (orchestrate w cfg orch userInput)) = (response r, [])"
    using assms(2) by (simp add: aggregateResults_def aggregateConsensus_def)
  then show ?thesis using orchestrate_aggregates [OF assms(1)] by simp
qed

theorem single_success_verbatim_witness:
  "outcome (orchestrate (sample_env first_succeeds) (sample_config 2) new_TaskOrchestrator
     ''Test task'') = Inr ''Success response'' \<and>
   synthesis_calls (orchestrate (sample_env first_succeeds) (sample_config 2) new_TaskOrchestrator
     ''Test task'') = []"
proof -
  let ?o = "orchestrate (sample_env first_succeeds) (sample_config 2) new_TaskOrchestrator
     ''Test task''"
  have s: "subtasks ?o =
     JArr [JStr ''Research comprehensive information about: Test task'',
           JStr ''Analyze and provide insights about: Test task'']"
    by (simp add: sample_run first_succeeds_def)
  have r: "results ?o =
     [\<lparr>agent_id = 0, status = ''success'', response = ''Success response'',
       execution_time = 100\<rparr>,
      \<lparr>agent_id = 1, status = ''error'',
       response = ''Error: Error: LLM call failed: Error: Connection error.'',
       execution_time = 0\<rparr>]"
    by (simp add: sample_run first_succeeds_def)
  have f: "filter (\<lambda>r. status r = ''success'') (results ?o) =
     [\<lparr>agent_id = 0, status = ''success'', response = ''Success response'',
       execution_time = 100\<rparr>]"
    unfolding r by simp
  show ?thesis using single_success_verbatim [OF s f] by simp
qed

text \<open>
  C7. When the sub-tasks were dispatched, two or more Agent Results have status
  \<^verbatim>\<open>success\<close> and the run of the synthesis agent raises, \<^verbatim>\<open>orchestrate\<close> still returns a
  string: for the successful responses in the order of their indices, the lines
  \<^verbatim>\<open>=== Agent i Response ===\<close> (\<open>i\<close> counted from 1), the response and an empty
  entry, joined by newlines. Every successful response occurs in it in full.
\<close>

theorem synthesis_failure_falls_back:
  assumes "subtasks (orchestrate w cfg orch userInput) = JArr ts"
      and "responses = map response
             (filter (\<lambda>r. status r = ''success'') (results (orchestrate w cfg orch userInput)))"
      and "2 \<le> length responses"
      and "fst (run w (synthesisAgent w cfg) (JStr (synthesisPrompt cfg responses))) = Inl e"
  shows "outcome (orchestrate w cfg orch userInput) =
           Inr (join NL (concat (map (\<lambda>i. [''=== Agent '' @ toString (i + 1) @ '' Response ==='',
                                             responses ! i, []])
                                   [0..<length responses]))) \<and>
         (\<forall>r\<in>set responses. \<exists>p q. outcome (orchestrate w cfg orch userInput) = Inr (p @ r @ q))"
proof -
  have "fst (aggregateResults w cfg (results (orchestrate w cfg orch userInput))) =
      join NL (combined responses)"
    using assms(2-4)
    by (auto simp: aggregateResults_def aggregateConsensus_def Let_def
        split: prod.splits sum.splits)
  then have out: "outcome (orchestrate w cfg orch userInput) = Inr (join NL (combined responses))"
    using orchestrate_aggregates(1) [OF assms(1)] by simp
  have "\<forall>r\<in>set responses. \<exists>p q. join NL (combined responses) = p @ r @ q"
    using join_contains [OF combined_contains] by blast
  then show ?thesis using out by (simp add: combined_def)
qed

theorem synthesis_failure_falls_back_witness:
  "outcome (orchestrate
      (sample_env (answering [''Response 1'', ''Response 2''] (Inl ''Error: Synthesis failed'')))
      (sample_config 2) new_TaskOrchestrator ''Test task'') =
     Inr (''=== Agent 1 Response ==='' @ NL @ ''Response 1'' @ NL @ NL @
          ''=== Agent 2 Response ==='' @ NL @ ''Response 2'' @ NL)"
proof -
  let ?w = "sample_env (answering [''Response 1'', ''Response 2''] (Inl ''Error: Synthesis failed''))"
  let ?o = "orchestrate ?w (sample_config 2) new_TaskOrchestrator ''Test task''"
  have s: "subtasks ?o =
     JArr [JStr ''Research comprehensive information about: Test task'',
           JStr ''Analyze and provide insights about: Test task'']"
    by (simp add: sample_run answering_def)
  have r: "[''Response 1'', ''Response 2''] =
      map response (filter (\<lambda>r. status r = ''success'') (results ?o))"
    by (simp add: sample_run answering_def)
  have l: "2 \<le> length [''Response 1'', ''Response 2'']" by simp
  have f: "fst (run ?w (synthesisAgent ?w (sample_config 2))
      (JStr (synthesisPrompt (sample_config 2) [''Response 1'', ''Response 2'']))) =
      Inl ''Error: LLM call failed: Error: Synthesis failed''"
    by (simp add: sample_run answering_def)
  show ?thesis
    using synthesis_failure_falls_back [OF s r l f]
    by (simp add: toString.simps upt_rec)
qed

text \<open>
  C10. The promise of \<^verbatim>\<open>runAgentParallel\<close> is always fulfilled, with a result of
  status \<^verbatim>\<open>success\<close> or \<^verbatim>\<open>error\<close>; so no Agent Result of \<^verbatim>\<open>orchestrate\<close> has status
  \<^verbatim>\<open>timeout\<close>: the branch for a rejected promise is never taken.
\<close>

theorem no_timeout_result:
  "(\<exists>r. fst (runAgentParallel w cfg orch i subtask) = Inr r \<and>
        (status r = ''success'' \<or> status r = ''error'')) \<and>
   (\<forall>x\<in>set (fst (dispatch w cfg orch i ts)). \<not> isl x) \<and>
   (\<forall>r\<in>set (results (orchestrate w cfg orch userInput)). status r \<noteq> ''timeout'')"
proof (intro conjI ballI)
  show "\<exists>r. fst (runAgentParallel w cfg orch i subtask) = Inr r \<and>
        (status r = ''success'' \<or> status r = ''error'')"
    using runAgentParallel_fulfils [of w cfg orch i subtask] by blast
next
  fix x assume "x \<in> set (fst (dispatch w cfg orch i ts))"
  from dispatch_settled [OF this] show "\<not> isl x" by auto
next
  fix r assume "r \<in> set (results (orchestrate w cfg orch userInput))"
  from orchestrate_results_settled [OF this] show "status r \<noteq> ''timeout''" by auto
qed

theorem no_timeout_result_witness:
  "map status (results (orchestrate (sample_env first_succeeds) (sample_config 2)
      new_TaskOrchestrator ''Test task'')) = [''success'', ''error''] \<and>
   ''timeout'' \<notin> set (map status (results (orchestrate (sample_env first_succeeds)
      (sample_config 2) new_TaskOrchestrator ''Test task'')))"
proof -
  have "map status (results (orchestrate (sample_env first_succeeds) (sample_config 2)
      new_TaskOrchestrator ''Test task'')) = [''success'', ''error'']"
    by (simp add: sample_run first_succeeds_def)
  moreover have "''timeout'' \<notin> set (map status (results (orchestrate (sample_env first_succeeds)
      (sample_config 2) new_TaskOrchestrator ''Test task'')))"
    using no_timeout_result [of "sample_env first_succeeds" "sample_config 2"
        new_TaskOrchestrator 0 "JStr ''Test task''" "[]" "''Test task''"]
    by auto
  ultimately show ?thesis by blast
qed

lemma dispatch_indices:
  "map (\<lambda>(j, x). agent_id (settle cfg j x)) (enumerate i (fst (dispatch w cfg orch i ts))) =
     [i..<i + length ts]"
proof (induction ts arbitrary: orch i)
  case Nil
  then show ?case by simp
next
  case (Cons t ts)
  obtain a o1 where a: "runAgentParallel w cfg orch i t = (a, o1)"
    by (cases "runAgentParallel w cfg orch i t")
  obtain bs o2 where b: "dispatch w cfg o1 (Suc i) ts = (bs, o2)"
    by (cases "dispatch w cfg o1 (Suc i) ts")
  have "agent_id (settle cfg i a) = i"
    using runAgentParallel_fulfils [of w cfg orch i t] a by (auto simp: settle_def)
  moreover have "map (\<lambda>(j, x). agent_id (settle cfg j x)) (enumerate (Suc i) bs) =
      [Suc i..<Suc i + length ts]"
    using Cons.IH [where orch = o1 and i = "Suc i"] b by simp
  moreover have "[i..<i + length (t # ts)] = i # [Suc i..<Suc i + length ts]"
  proof -
    have "i < i + length (t # ts)" by simp
    then have "[i..<i + length (t # ts)] = i # [Suc i..<i + length (t # ts)]"
      by (rule upt_conv_Cons)
    moreover have "i + length (t # ts) = Suc i + length ts" by simp
    ultimately show ?thesis by (simp only:)
  qed
  ultimately have "map (\<lambda>(j, x). agent_id (settle cfg j x)) (enumerate i (a # bs)) =
      [i..<i + length (t # ts)]"
    by (simp only: enumerate_simps list.map prod.case)
  then show ?case using a b by (simp only: dispatch.simps Let_def prod.case fst_conv)
qed

text \<open>
  The Agent Results of one call have the indices \<open>0, 1, \<dots>\<close>, one for each
  dispatched sub-task, in this order.
\<close>

lemma results_indices:
  assumes "subtasks (orchestrate w cfg orch userInput) = JArr ts"
  shows "map agent_id (results (orchestrate w cfg orch userInput)) = [0..<length ts]"
proof -
  let ?o1 = "foldl (\<lambda>st i. st\<lparr>agentProgress := (agentProgress st)(i \<mapsto> ''QUEUED'')\<rparr>)
               (orch\<lparr>agentProgress := Map.empty, agentResults := Map.empty\<rparr>)
               [0..<parallel_agents cfg]"
  let ?rs = "map (\<lambda>(i, result). settle cfg i result) (enumerate 0 (fst (dispatch w cfg ?o1 0 ts)))"
  have ids: "map agent_id ?rs = [0..<length ts]"
    using dispatch_indices [where i = 0 and orch = ?o1 and cfg = cfg and w = w and ts = ts]
    by (simp add: case_prod_unfold comp_def)
  then have "sorted (map agent_id ?rs)" by simp
  then have "sort_key agent_id ?rs = ?rs" by (rule sort_key_id_if_sorted)
  moreover have "results (orchestrate w cfg orch userInput) = sort_key agent_id ?rs"
    using assms unfolding orchestrate_subtasks
    by (simp add: orchestrate_def Let_def split: prod.splits)
  ultimately show ?thesis using ids by simp
qed

text \<open>
  The number of sub-tasks: the agent count when the parsed reply is taken, and at
  most four when the fixed questions are.
\<close>

lemma decomposeTask_count:
  assumes "decomposeTask w cfg userInput n = JArr ts"
  shows "length ts = n \<or> (parsed_questions w cfg userInput n = None \<and> length ts = min n 4)"
proof (cases "parsed_questions w cfg userInput n")
  case None
  then show ?thesis using assms by (auto simp: decomposeTask_def fallback_questions_def)
next
  case (Some q)
  then have "q = JArr ts" using assms by (simp add: decomposeTask_def)
  then have "length_property (JArr ts) = Some (Some (JNum (int n)))"
    using Some
    by (auto simp: parsed_questions_def split: sum.splits option.splits if_splits)
  then show ?thesis by simp
qed

text \<open>
  C1 fails on the code. With five configured agents and a decomposition that falls
  back to the fixed questions (here the model call fails), four sub-tasks are
  dispatched, and the Agent Results have the indices 0 to 3, not 0 to 4.
\<close>

theorem fallback_dispatches_four_of_five:
  "parallel_agents (sample_config 5) = 5 \<and>
   subtasks (orchestrate (sample_env failing) (sample_config 5) new_TaskOrchestrator
     ''Test task'') =
     JArr [JStr ''Research comprehensive information about: Test task'',
           JStr ''Analyze and provide insights about: Test task'',
           JStr ''Find alternative perspectives on: Test task'',
           JStr ''Verify and cross-check facts about: Test task''] \<and>
   map agent_id (results (orchestrate (sample_env failing) (sample_config 5)
     new_TaskOrchestrator ''Test task'')) = [0, 1, 2, 3]"
  by (simp add: sample_run failing_def)

lemma get_substitution_plain:
  "CHR ''$'' \<notin> set r \<Longrightarrow> get_substitution matched pre post r = r"
  by (induction matched pre post r rule: get_substitution.induct) auto

lemma replace_plain:
  "CHR ''$'' \<notin> set r \<Longrightarrow> find_first pat s = Some (pre, post) \<Longrightarrow>
   replace s pat r = pre @ r @ post"
  by (simp add: replace_def get_substitution_plain)

lemma synthesisAgent_no_tools:
  "tools (synthesisAgent w cfg) = [] \<and> toolMapping (synthesisAgent w cfg) = Map.empty"
  by (simp add: synthesisAgent_def)

lemma synthesis_scenario:
  "synthesisPrompt (sample_config 3) [''R1'', ''R2'', ''R3''] =
     ''Synthesize 3 responses: '' @
     ''=== AGENT 1 RESPONSE ==='' @ NL @ ''R1'' @ NL @ NL @
     ''=== AGENT 2 RESPONSE ==='' @ NL @ ''R2'' @ NL @ NL @
     ''=== AGENT 3 RESPONSE ==='' @ NL @ ''R3'' @ NL @ NL \<and>
   outcome (orchestrate (sample_env (answering [''R1'', ''R2'', ''R3''] (Inr (done_with ''Synth''))))
     (sample_config 3) new_TaskOrchestrator ''Test task'') = Inr ''Synth''"
  by (simp add: sample_run answering_def upt_rec)

text \<open>
  C4 fails on the code. The responses are spliced into the template by
  \<^verbatim>\<open>String.prototype.replace\<close>, which reads \<^verbatim>\<open>$$\<close>, \<^verbatim>\<open>$&\<close>, \<^verbatim>\<open>$`\<close> and \<^verbatim>\<open>$'\<close> in
  the replacement text as patterns. For the two successful responses
  \<^verbatim>\<open>$$E=mc^2$$\<close> and \<^verbatim>\<open>R2\<close>, the prompt that the synthesis agent is run with, and
  that its client receives, has \<^verbatim>\<open>$E=mc^2$\<close> under the first heading.
\<close>

theorem synthesis_prompt_rewrites_dollar_patterns:
  "map response (results (orchestrate
      (sample_env (answering [''$$E=mc^2$$'', ''R2''] (Inr (done_with ''Synth''))))
      (sample_config 2) new_TaskOrchestrator ''Test task'')) = [''$$E=mc^2$$'', ''R2''] \<and>
   synthesisPrompt (sample_config 2) [''$$E=mc^2$$'', ''R2''] =
     ''Synthesize 2 responses: '' @
     ''=== AGENT 1 RESPONSE ==='' @ NL @ ''$E=mc^2$'' @ NL @ NL @
     ''=== AGENT 2 RESPONSE ==='' @ NL @ ''R2'' @ NL @ NL \<and>
   map rq_messages (synthesis_calls (orchestrate
      (sample_env (answering [''$$E=mc^2$$'', ''R2''] (Inr (done_with ''Synth''))))
      (sample_config 2) new_TaskOrchestrator ''Test task'')) =
     [[System ''Test prompt'',
       User (JStr (''Synthesize 2 responses: '' @
         ''=== AGENT 1 RESPONSE ==='' @ NL @ ''$E=mc^2$'' @ NL @ NL @
         ''=== AGENT 2 RESPONSE ==='' @ NL @ ''R2'' @ NL @ NL))]]"
  by (simp add: sample_run answering_def upt_rec)

end
